theory Spec2Isabelle
  imports Complex_Main "HOL-Library.Multiset" "HOL-Library.AList"
begin

section \<open>Array utilities (SortableContainer)\<close>

text \<open>
  A JavaScript array is a list whose cells may hold \<open>undefined\<close> (\<open>None\<close>). Arrays are
  objects: a variable holds a reference, and \<open>splice\<close> mutates the referenced array in
  place. The store is a list of arrays, a reference is a position in it, and allocation
  appends.
\<close>

type_synonym 'a jsarray = "'a option list"
type_synonym 'a store = "'a jsarray list"

text \<open>\<open>[...array]\<close>: a fresh array holding the elements of \<open>array\<close>.\<close>

definition spread :: "'a store \<Rightarrow> nat \<Rightarrow> 'a store \<times> nat" where
  "spread h array = (h @ [h ! array], length h)"

text \<open>
  \<open>Array.prototype.splice(start, deleteCount, ...items)\<close>: a negative start counts from
  the end, both numbers are clamped to the array, the removed elements are returned and
  the array is changed in place.
\<close>

definition relativeStart :: "int \<Rightarrow> nat \<Rightarrow> nat" where
  "relativeStart start len =
     (if start < 0 then nat (max (int len + start) 0) else min (nat start) len)"

definition splice_js :: "'a store \<Rightarrow> nat \<Rightarrow> int \<Rightarrow> int \<Rightarrow> 'a jsarray \<Rightarrow> 'a store \<times> 'a jsarray" where
  "splice_js h a start deleteCount items =
     (let xs = h ! a;
          len = length xs;
          actualStart = relativeStart start len;
          actualDeleteCount = nat (min (max deleteCount 0) (int len - int actualStart));
          removed = take actualDeleteCount (drop actualStart xs)
      in (h[a := take actualStart xs @ items @ drop (actualStart + actualDeleteCount) xs],
          removed))"

text \<open>
  \<open>arrayMove\<close>: copy, splice one element out at \<open>fromIndex\<close>, splice it in at
  \<open>toIndex\<close>. The destructuring \<open>const [removed] = ...\<close> yields \<open>undefined\<close> when nothing
  was removed.
\<close>

definition arrayMove :: "'a store \<Rightarrow> nat \<Rightarrow> int \<Rightarrow> int \<Rightarrow> 'a store \<times> nat" where
  "arrayMove h array fromIndex toIndex =
     (let (h1, newArray) = spread h array;
          (h2, removedItems) = splice_js h1 newArray fromIndex 1 [];
          removed = (case removedItems of [] \<Rightarrow> None | r # _ \<Rightarrow> r);
          (h3, _) = splice_js h2 newArray toIndex 0 [removed]
      in (h3, newArray))"


section \<open>Data model (types.ts)\<close>

text \<open>
  Coordinates, speeds and sizes are JavaScript numbers, modelled as real numbers;
  indices are integers. \<open>null\<close> is \<open>None\<close>.
\<close>

record Position =
  pos_x :: real
  pos_y :: real

record DragState =
  isDragging :: bool
  draggedId :: "string option"
  draggedIndex :: "int option"
  overIndex :: "int option"
  initialPosition :: "Position option"
  currentPosition :: "Position option"
  offset :: "Position option"

record AutoScrollConfig =
  enabled :: bool
  threshold :: real
  maxSpeed :: real
  acceleration :: real

datatype Axis = AxisX | AxisY

record DragDropContextConfig =
  autoScroll :: AutoScrollConfig
  activationDelay :: real
  activationDistance :: real
  hapticFeedback :: bool
  lockAxis :: "Axis option"

definition DEFAULT_AUTOSCROLL :: AutoScrollConfig where
  "DEFAULT_AUTOSCROLL = \<lparr>enabled = True, threshold = 80, maxSpeed = 15, acceleration = 3 / 2\<rparr>"

definition DEFAULT_CONFIG :: DragDropContextConfig where
  "DEFAULT_CONFIG = \<lparr>autoScroll = DEFAULT_AUTOSCROLL, activationDelay = 150,
     activationDistance = 5, hapticFeedback = True, lockAxis = None\<rparr>"

subsection \<open>The host's objects, as far as the engine reads them\<close>

record DOMRect =
  rect_left :: real
  rect_top :: real
  rect_right :: real
  rect_bottom :: real

text \<open>
  The scroll container that auto-scroll drives: its bounding rectangle (absent when the
  object has no \<open>getBoundingClientRect\<close>) and its scroll offsets and extents.
\<close>

record ScrollElement =
  boundingRect :: "DOMRect option"
  scrollTop :: real
  scrollLeft :: real
  scrollHeight :: real
  clientHeight :: real
  scrollWidth :: real
  clientWidth :: real

text \<open>
  An item's element: its bounding rectangle, its \<open>offsetHeight\<close> (a non-negative integer)
  and the scroll container that the walk over its ancestors resolves to (\<open>None\<close> when
  the resolution yields no scroll element).
\<close>

record HTMLElement =
  boundingClientRect :: DOMRect
  offsetHeight :: nat
  scrollContainer :: "ScrollElement option"

record Viewport =
  innerWidth :: real
  innerHeight :: real

section \<open>Auto-scroll (useAutoScroll)\<close>

record AutoScroll =
  scrollElement :: "ScrollElement option"
  animationFrameRef :: bool
  isScrollingRef :: bool
  scrollSpeedRef :: Position
  lastScrollPositionRef :: Position

definition zeroPosition :: Position where
  "zeroPosition = \<lparr>pos_x = 0, pos_y = 0\<rparr>"

text \<open>\<open>initScrollContainer\<close>: store the resolved scroll element and its current offsets.\<close>

definition initScrollContainer :: "HTMLElement \<Rightarrow> AutoScroll \<Rightarrow> AutoScroll" where
  "initScrollContainer element a =
     (case scrollContainer element of
        None \<Rightarrow> a\<lparr>scrollElement := None\<rparr>
      | Some se \<Rightarrow> a\<lparr>scrollElement := Some se,
                       lastScrollPositionRef := \<lparr>pos_x = scrollLeft se, pos_y = scrollTop se\<rparr>\<rparr>)"

text \<open>
  \<open>calculateScrollSpeed\<close>. The four edge blocks run in the order top, bottom, left,
  right; a later block on the same axis overwrites the speed an earlier one has set.
\<close>

definition calculateScrollSpeed ::
  "AutoScrollConfig \<Rightarrow> Viewport \<Rightarrow> ScrollElement option \<Rightarrow> Position \<Rightarrow> Position" where
  "calculateScrollSpeed mergedConfig window scrollElem position =
     (case scrollElem of
        None \<Rightarrow> zeroPosition
      | Some htmlElement \<Rightarrow>
          if \<not> enabled mergedConfig then zeroPosition
          else
            let rect = (case boundingRect htmlElement of
                          Some r \<Rightarrow> r
                        | None \<Rightarrow> \<lparr>rect_left = 0, rect_top = 0,
                                    rect_right = innerWidth window,
                                    rect_bottom = innerHeight window\<rparr>);
                visibleTop = max 0 (rect_top rect);
                visibleBottom = min (innerHeight window) (rect_bottom rect);
                visibleLeft = max 0 (rect_left rect);
                visibleRight = min (innerWidth window) (rect_right rect);
                canScrollUp = (scrollTop htmlElement > 0);
                canScrollDown =
                  (scrollTop htmlElement < scrollHeight htmlElement - clientHeight htmlElement);
                canScrollLeft = (scrollLeft htmlElement > 0);
                canScrollRight =
                  (scrollLeft htmlElement < scrollWidth htmlElement - clientWidth htmlElement);
                distanceFromTop = pos_y position - visibleTop;
                speedY1 =
                  (if distanceFromTop < threshold mergedConfig \<and> canScrollUp
                   then - min (maxSpeed mergedConfig)
                          (max (1 / 10)
                               (if distanceFromTop \<le> 0 then 1
                                else 1 - distanceFromTop / threshold mergedConfig)
                           * maxSpeed mergedConfig * acceleration mergedConfig)
                   else 0);
                distanceFromBottom = visibleBottom - pos_y position;
                speedY =
                  (if distanceFromBottom < threshold mergedConfig \<and> canScrollDown
                   then min (maxSpeed mergedConfig)
                          (max (1 / 10)
                               (if distanceFromBottom \<le> 0 then 1
                                else 1 - distanceFromBottom / threshold mergedConfig)
                           * maxSpeed mergedConfig * acceleration mergedConfig)
                   else speedY1);
                distanceFromLeft = pos_x position - visibleLeft;
                speedX1 =
                  (if distanceFromLeft < threshold mergedConfig \<and> canScrollLeft
                   then - min (maxSpeed mergedConfig)
                          (max (1 / 10)
                               (if distanceFromLeft \<le> 0 then 1
                                else 1 - distanceFromLeft / threshold mergedConfig)
                           * maxSpeed mergedConfig * acceleration mergedConfig)
                   else 0);
                distanceFromRight = visibleRight - pos_x position;
                speedX =
                  (if distanceFromRight < threshold mergedConfig \<and> canScrollRight
                   then min (maxSpeed mergedConfig)
                          (max (1 / 10)
                               (if distanceFromRight \<le> 0 then 1
                                else 1 - distanceFromRight / threshold mergedConfig)
                           * maxSpeed mergedConfig * acceleration mergedConfig)
                   else speedX1)
            in \<lparr>pos_x = speedX, pos_y = speedY\<rparr>)"

text \<open>
  \<open>updateScroll\<close> stores the speed and requests an animation frame when none is pending;
  \<open>stopScroll\<close> clears speed and frame.
\<close>

definition updateScroll :: "AutoScrollConfig \<Rightarrow> Viewport \<Rightarrow> Position \<Rightarrow> AutoScroll \<Rightarrow> AutoScroll" where
  "updateScroll mergedConfig window position a =
     (if \<not> enabled mergedConfig then a
      else
        let speed = calculateScrollSpeed mergedConfig window (scrollElement a) position;
            a1 = a\<lparr>scrollSpeedRef := speed\<rparr>
        in if (pos_x speed \<noteq> 0 \<or> pos_y speed \<noteq> 0) \<and> \<not> animationFrameRef a1
           then a1\<lparr>isScrollingRef := True, animationFrameRef := True\<rparr>
           else if pos_x speed = 0 \<and> pos_y speed = 0
           then a1\<lparr>isScrollingRef := False\<rparr>
           else a1)"

definition stopScroll :: "AutoScroll \<Rightarrow> AutoScroll" where
  "stopScroll a = a\<lparr>isScrollingRef := False, scrollSpeedRef := zeroPosition,
                     animationFrameRef := False\<rparr>"

section \<open>The drag session (DragDropProvider)\<close>

text \<open>
  What the session does to its host is recorded as a list of effects, in order: the
  callbacks \<open>onDragStart\<close>, \<open>onDragMove\<close>, \<open>onDragOver\<close>, \<open>onDragEnd\<close> with the fields of their
  event, and the haptic pulses requested. The item of a move, over or end event is read
  from the state with a non-null assertion, so its id and index are optional here; the
  item index of a drag-end is its \<open>fromIndex\<close> and is not repeated.

  The handlers \<open>updateDrag\<close>, \<open>endDrag\<close> and the window listeners are closures of a render:
  they read the \<open>state\<close> of the render that created them, and the refs as they are when
  they run. Applied to a provider, each function below is the handler of the render
  whose state is the provider's; a run of actions has a render between one action and
  the next. What a handler does when it runs a second time before the next render is
  not described by applying it to the provider the first run has left.
\<close>

datatype Impact = Light | Medium | Heavy

datatype Effect =
    Haptic Impact
  | DragStart string int
  | DragMove "string option" "int option" Position Position
  | DragOver "string option" "int option" int string int
  | DragEnd "string option" int int bool

text \<open>
  The provider: the React state (\<open>state\<close>, \<open>scrollOffset\<close>), its refs, the auto-scroll
  hook and the window. \<open>itemsRef\<close> is a JavaScript \<open>Map\<close>: it iterates in insertion order,
  \<open>set\<close> on a present key keeps the key's place.
\<close>

record Provider =
  config :: DragDropContextConfig
  state :: DragState
  scrollOffset :: Position
  itemsRef :: "(string \<times> int \<times> HTMLElement) list"
  draggedElementRef :: "HTMLElement option"
  initialIndexRef :: "int option"
  scroller :: AutoScroll
  viewport :: Viewport

definition idleState :: DragState where
  "idleState = \<lparr>isDragging = False, draggedId = None, draggedIndex = None,
     overIndex = None, initialPosition = None, currentPosition = None, offset = None\<rparr>"

definition initialProvider :: "DragDropContextConfig \<Rightarrow> Viewport \<Rightarrow> Provider" where
  "initialProvider cfg w =
     \<lparr>config = cfg, state = idleState, scrollOffset = zeroPosition, itemsRef = [],
      draggedElementRef = None, initialIndexRef = None,
      scroller = \<lparr>scrollElement = None, animationFrameRef = False, isScrollingRef = False,
                   scrollSpeedRef = zeroPosition, lastScrollPositionRef = zeroPosition\<rparr>,
      viewport = w\<rparr>"

definition handleScrollDelta :: "Position \<Rightarrow> Provider \<Rightarrow> Provider" where
  "handleScrollDelta delta p =
     p\<lparr>scrollOffset := \<lparr>pos_x = pos_x (scrollOffset p) + pos_x delta,
                          pos_y = pos_y (scrollOffset p) + pos_y delta\<rparr>\<rparr>"

definition registerItem :: "string \<Rightarrow> int \<Rightarrow> HTMLElement \<Rightarrow> Provider \<Rightarrow> Provider" where
  "registerItem ident index element p =
     p\<lparr>itemsRef := AList.update ident (index, element) (itemsRef p)\<rparr>"

definition unregisterItem :: "string \<Rightarrow> Provider \<Rightarrow> Provider" where
  "unregisterItem ident p = p\<lparr>itemsRef := AList.delete ident (itemsRef p)\<rparr>"

definition getItemElement :: "Provider \<Rightarrow> string \<Rightarrow> HTMLElement option" where
  "getItemElement p ident = map_option snd (map_of (itemsRef p) ident)"

definition getItemIndex :: "Provider \<Rightarrow> string \<Rightarrow> int" where
  "getItemIndex p ident = (case map_of (itemsRef p) ident of Some (index, _) \<Rightarrow> index | None \<Rightarrow> - 1)"

text \<open>
  \<open>findItemAtPosition\<close>: the loop over the map's entries, skipping the dragged id and
  returning at the first entry whose rectangle holds the position.
\<close>

fun findItemLoop ::
  "(string \<times> int \<times> HTMLElement) list \<Rightarrow> string option \<Rightarrow> Position \<Rightarrow> (string \<times> int) option" where
  "findItemLoop [] dragged position = None"
| "findItemLoop ((ident, index, element) # entries) dragged position =
     (if Some ident = dragged then findItemLoop entries dragged position
      else
        let rect = boundingClientRect element
        in if pos_x position \<ge> rect_left rect \<and> pos_x position \<le> rect_right rect
              \<and> pos_y position \<ge> rect_top rect \<and> pos_y position \<le> rect_bottom rect
           then Some (ident, index)
           else findItemLoop entries dragged position)"

definition findItemAtPosition :: "Provider \<Rightarrow> Position \<Rightarrow> (string \<times> int) option" where
  "findItemAtPosition p position = findItemLoop (itemsRef p) (draggedId (state p)) position"

text \<open>
  \<open>startDrag\<close> is asynchronous: it sets the refs, resets the scroll offset and awaits
  \<open>initScrollContainer\<close>; after the await it computes the offset, sets the state and
  calls \<open>onDragStart\<close>. Other handlers can run between the two halves.
\<close>

definition startDragBegin :: "string \<Rightarrow> int \<Rightarrow> Position \<Rightarrow> HTMLElement \<Rightarrow> Provider \<Rightarrow> Provider" where
  "startDragBegin ident index position element p =
     p\<lparr>draggedElementRef := Some element, initialIndexRef := Some index,
       scrollOffset := zeroPosition,
       scroller := initScrollContainer element (scroller p)\<rparr>"

definition startDragResume ::
  "string \<Rightarrow> int \<Rightarrow> Position \<Rightarrow> HTMLElement \<Rightarrow> Provider \<Rightarrow> Effect list \<times> Provider" where
  "startDragResume ident index position element p =
     (let rect = boundingClientRect element;
          off = \<lparr>pos_x = pos_x position - rect_left rect,
                 pos_y = pos_y position - rect_top rect\<rparr>
      in ((if hapticFeedback (config p) then [Haptic Medium] else []) @ [DragStart ident index],
          p\<lparr>state := \<lparr>isDragging = True, draggedId = Some ident, draggedIndex = Some index,
                       overIndex = Some index, initialPosition = Some position,
                       currentPosition = Some position, offset = Some off\<rparr>\<rparr>))"

definition startDrag ::
  "string \<Rightarrow> int \<Rightarrow> Position \<Rightarrow> HTMLElement \<Rightarrow> Provider \<Rightarrow> Effect list \<times> Provider" where
  "startDrag ident index position element p =
     startDragResume ident index position element (startDragBegin ident index position element p)"

text \<open>The axis lock of \<open>updateDrag\<close>.\<close>

definition applyAxisLock :: "Axis option \<Rightarrow> Position option \<Rightarrow> Position \<Rightarrow> Position" where
  "applyAxisLock lock initial position =
     (case initial of
        None \<Rightarrow> position
      | Some ip \<Rightarrow>
          if lock = Some AxisX then position\<lparr>pos_y := pos_y ip\<rparr>
          else if lock = Some AxisY then position\<lparr>pos_x := pos_x ip\<rparr>
          else position)"

definition updateDrag :: "Position \<Rightarrow> Provider \<Rightarrow> Effect list \<times> Provider" where
  "updateDrag position p =
     (if \<not> isDragging (state p) then ([], p)
      else
        let finalPosition = applyAxisLock (lockAxis (config p)) (initialPosition (state p)) position;
            scroller' = updateScroll (autoScroll (config p)) (viewport p) finalPosition (scroller p);
            overItem = findItemAtPosition p finalPosition;
            newOverIndex = (case overItem of Some (_, index) \<Rightarrow> Some index
                            | None \<Rightarrow> overIndex (state p));
            delta = (case initialPosition (state p) of
                       Some ip \<Rightarrow> \<lparr>pos_x = pos_x finalPosition - pos_x ip,
                                   pos_y = pos_y finalPosition - pos_y ip\<rparr>
                     | None \<Rightarrow> zeroPosition)
        in ((if newOverIndex \<noteq> overIndex (state p) \<and> hapticFeedback (config p)
             then [Haptic Light] else [])
            @ [DragMove (draggedId (state p)) (draggedIndex (state p)) finalPosition delta]
            @ (case overItem of
                 Some (overId, index) \<Rightarrow>
                   [DragOver (draggedId (state p)) (draggedIndex (state p)) index overId index]
               | None \<Rightarrow> []),
            p\<lparr>scroller := scroller',
              state := (state p)\<lparr>currentPosition := Some finalPosition,
                                  overIndex := newOverIndex\<rparr>\<rparr>))"

definition endDrag :: "bool \<Rightarrow> Provider \<Rightarrow> Effect list \<times> Provider" where
  "endDrag cancelled p =
     (if \<not> isDragging (state p) then ([], p)
      else
        let fromIndex = (case initialIndexRef p of
                           Some i \<Rightarrow> i
                         | None \<Rightarrow> (case draggedIndex (state p) of Some i \<Rightarrow> i | None \<Rightarrow> 0));
            toIndex = (if cancelled then fromIndex
                       else (case overIndex (state p) of Some i \<Rightarrow> i | None \<Rightarrow> fromIndex))
        in ((if hapticFeedback (config p) then [Haptic Medium] else [])
            @ [DragEnd (draggedId (state p)) fromIndex toIndex cancelled],
            p\<lparr>scroller := stopScroll (scroller p), state := idleState,
              draggedElementRef := None, initialIndexRef := None\<rparr>))"

text \<open>
  The window listeners are attached only while \<open>state.isDragging\<close>: pointer-up and
  touch-end commit, pointer-cancel, touch-cancel and the Escape key cancel.
  \<open>useDragControls\<close> gives \<open>cancel\<close> and \<open>complete\<close>.
\<close>

datatype WindowEvent = PointerUp | PointerCancel | TouchEnd | TouchCancel | KeyDown string

definition windowEvent :: "WindowEvent \<Rightarrow> Provider \<Rightarrow> Effect list \<times> Provider" where
  "windowEvent ev p =
     (if \<not> isDragging (state p) then ([], p)
      else case ev of
             PointerUp \<Rightarrow> endDrag False p
           | PointerCancel \<Rightarrow> endDrag True p
           | TouchEnd \<Rightarrow> endDrag False p
           | TouchCancel \<Rightarrow> endDrag True p
           | KeyDown k \<Rightarrow> if k = ''Escape'' then endDrag True p else ([], p))"

definition cancel :: "Provider \<Rightarrow> Effect list \<times> Provider" where
  "cancel p = endDrag True p"


text \<open>Everything that can happen to a provider, and runs of such actions.\<close>

datatype Action =
    RegisterItem string int HTMLElement
  | UnregisterItem string
  | StartDragBegin string int Position HTMLElement
  | StartDragResume string int Position HTMLElement
  | StartDrag string int Position HTMLElement
  | UpdateDrag Position
  | EndDrag bool
  | Window WindowEvent
  | ScrollDelta Position

fun step :: "Action \<Rightarrow> Provider \<Rightarrow> Effect list \<times> Provider" where
  "step (RegisterItem ident index element) p = ([], registerItem ident index element p)"
| "step (UnregisterItem ident) p = ([], unregisterItem ident p)"
| "step (StartDragBegin ident index position element) p =
     ([], startDragBegin ident index position element p)"
| "step (StartDragResume ident index position element) p =
     startDragResume ident index position element p"
| "step (StartDrag ident index position element) p = startDrag ident index position element p"
| "step (UpdateDrag position) p = updateDrag position p"
| "step (EndDrag cancelled) p = endDrag cancelled p"
| "step (Window ev) p = windowEvent ev p"
| "step (ScrollDelta delta) p = ([], handleScrollDelta delta p)"

fun run :: "Action list \<Rightarrow> Provider \<Rightarrow> Effect list \<times> Provider" where
  "run [] p = ([], p)"
| "run (a # as) p =
     (let (out1, p1) = step a p; (out2, p2) = run as p1 in (out1 @ out2, p2))"

section \<open>The sortable item (useSortable)\<close>

text \<open>
  One item's hook: its props, its refs and its \<open>localTransform\<close> state. A timer set with
  \<open>setTimeout\<close> is a handle; \<open>timers\<close> holds the handles of this item that the host has
  not yet fired or cleared, \<open>nextTimer\<close> is the next fresh handle.
\<close>

record Sortable =
  itemId :: string
  itemIndex :: int
  disabled :: bool
  elementRef :: "HTMLElement option"
  activationTimeoutRef :: "nat option"
  startPositionRef :: "Position option"
  isActivatedRef :: bool
  localTransform :: "Position option"
  timers :: "nat list"
  nextTimer :: nat

definition isAnotherDragging :: "DragState \<Rightarrow> Sortable \<Rightarrow> bool" where
  "isAnotherDragging st s \<longleftrightarrow> isDragging st \<and> draggedId st \<noteq> Some (itemId s)"

text \<open>
  A relational comparison coerces \<open>null\<close> to 0; \<open>state.draggedIndex!\<close> only asserts for
  the type checker.
\<close>

definition toNumber :: "int option \<Rightarrow> int" where
  "toNumber v = (case v of Some n \<Rightarrow> n | None \<Rightarrow> 0)"

text \<open>
  The displacement effect. When the item is to be displaced and the dragged element is
  not in the registry, \<open>localTransform\<close> is left as it was.
\<close>

definition displacementEffect :: "Provider \<Rightarrow> Sortable \<Rightarrow> Sortable" where
  "displacementEffect p s =
     (if \<not> isAnotherDragging (state p) s \<or> elementRef s = None
      then s\<lparr>localTransform := None\<rparr>
      else
        let draggedIdx = toNumber (draggedIndex (state p));
            overIdx = (case overIndex (state p) of Some i \<Rightarrow> i | None \<Rightarrow> draggedIdx);
            index = itemIndex s;
            (shouldDisplace, direction) =
              (if draggedIdx < overIdx
               then (if index > draggedIdx \<and> index \<le> overIdx then (True, - 1) else (False, 0))
               else if draggedIdx > overIdx
               then (if index \<ge> overIdx \<and> index < draggedIdx then (True, 1) else (False, 0))
               else (False, 0 :: int))
        in if shouldDisplace \<and> elementRef s \<noteq> None
           then (case (case draggedId (state p) of
                         Some d \<Rightarrow> getItemElement p d
                       | None \<Rightarrow> None) of
                   Some draggedElement \<Rightarrow>
                     s\<lparr>localTransform :=
                         Some \<lparr>pos_x = 0,
                               pos_y = of_int direction * (of_nat (offsetHeight draggedElement) + 16)\<rparr>\<rparr>
                 | None \<Rightarrow> s)
           else s\<lparr>localTransform := None\<rparr>)"

text \<open>
  The pointer handlers. \<open>handlePointerDown\<close> and \<open>handleTouchStart\<close> record the position and
  set the activation timer; neither reads the drag state.
\<close>

record PointerEvent =
  pointerType :: string
  button :: int
  clientX :: real
  clientY :: real

definition setActivationTimeout :: "Position \<Rightarrow> Sortable \<Rightarrow> Sortable" where
  "setActivationTimeout position s =
     s\<lparr>startPositionRef := Some position, isActivatedRef := False,
       activationTimeoutRef := Some (nextTimer s),
       timers := timers s @ [nextTimer s], nextTimer := Suc (nextTimer s)\<rparr>"

definition handlePointerDown :: "PointerEvent \<Rightarrow> Sortable \<Rightarrow> Sortable" where
  "handlePointerDown e s =
     (if disabled s then s
      else if pointerType e = ''mouse'' \<and> button e \<noteq> 0 then s
      else setActivationTimeout \<lparr>pos_x = clientX e, pos_y = clientY e\<rparr> s)"

definition handleTouchStart :: "Position list \<Rightarrow> Sortable \<Rightarrow> Sortable" where
  "handleTouchStart touches s =
     (if disabled s \<or> length touches \<noteq> 1 then s
      else setActivationTimeout (hd touches) s)"

definition handlePointerUp :: "Sortable \<Rightarrow> Sortable" where
  "handlePointerUp s =
     (case activationTimeoutRef s of
        Some t \<Rightarrow> s\<lparr>timers := removeAll t (timers s), activationTimeoutRef := None,
                     startPositionRef := None, isActivatedRef := False\<rparr>
      | None \<Rightarrow> s\<lparr>startPositionRef := None, isActivatedRef := False\<rparr>)"

text \<open>
  The timer callback: when a pending timer of the item fires it activates the drag of
  this item through \<open>startDrag\<close>, whatever the drag state is. The callback closes over
  the id and index of the render in which the pointer went down; no action here
  changes a hook's props, so they are the hook's \<open>itemId\<close> and \<open>itemIndex\<close>.
\<close>

definition activationTimeout ::
  "nat \<Rightarrow> Sortable \<Rightarrow> Provider \<Rightarrow> Sortable \<times> Effect list \<times> Provider" where
  "activationTimeout t s p =
     (if t \<notin> set (timers s) then (s, [], p)
      else
        let s1 = s\<lparr>timers := removeAll t (timers s)\<rparr>
        in case (elementRef s1, startPositionRef s1) of
             (Some element, Some start) \<Rightarrow>
               (s1\<lparr>isActivatedRef := True\<rparr>,
                startDrag (itemId s1) (itemIndex s1) start element p)
           | _ \<Rightarrow> (s1, [], p))"

definition mountedItem :: "string \<Rightarrow> int \<Rightarrow> HTMLElement \<Rightarrow> Sortable" where
  "mountedItem ident index element =
     \<lparr>itemId = ident, itemIndex = index, disabled = False, elementRef = Some element,
      activationTimeoutRef = None, startPositionRef = None, isActivatedRef = False,
      localTransform = None, timers = [], nextTimer = 1\<rparr>"

section \<open>Vocabulary for the properties\<close>

text \<open>The drag-end and drag-over notifications among a list of effects.\<close>

fun isDragEnd :: "Effect \<Rightarrow> bool" where
  "isDragEnd (DragEnd _ _ _ _) = True"
| "isDragEnd _ = False"

fun isDragOver :: "Effect \<Rightarrow> bool" where
  "isDragOver (DragOver _ _ _ _ _) = True"
| "isDragOver _ = False"

definition dragEnds :: "Effect list \<Rightarrow> Effect list" where
  "dragEnds out = filter isDragEnd out"

definition dragOvers :: "Effect list \<Rightarrow> Effect list" where
  "dragOvers out = filter isDragOver out"

text \<open>A point lies in a rectangle, all four edges included.\<close>

definition rectContains :: "DOMRect \<Rightarrow> Position \<Rightarrow> bool" where
  "rectContains rect position \<longleftrightarrow>
     rect_left rect \<le> pos_x position \<and> pos_x position \<le> rect_right rect
     \<and> rect_top rect \<le> pos_y position \<and> pos_y position \<le> rect_bottom rect"

text \<open>
  The edges of the scroll container, with the quantities \<open>calculateScrollSpeed\<close> computes
  for each: the pointer's distance from the visible edge, whether the container can
  still scroll toward it, and whether the edge's block sets a speed.
\<close>

datatype Edge = TopEdge | BottomEdge | LeftEdge | RightEdge

fun oppositeEdge :: "Edge \<Rightarrow> Edge" where
  "oppositeEdge TopEdge = BottomEdge"
| "oppositeEdge BottomEdge = TopEdge"
| "oppositeEdge LeftEdge = RightEdge"
| "oppositeEdge RightEdge = LeftEdge"

definition containerRect :: "Viewport \<Rightarrow> ScrollElement \<Rightarrow> DOMRect" where
  "containerRect window htmlElement =
     (case boundingRect htmlElement of
        Some r \<Rightarrow> r
      | None \<Rightarrow> \<lparr>rect_left = 0, rect_top = 0, rect_right = innerWidth window,
                  rect_bottom = innerHeight window\<rparr>)"

fun distanceFromEdge :: "Edge \<Rightarrow> Viewport \<Rightarrow> ScrollElement \<Rightarrow> Position \<Rightarrow> real" where
  "distanceFromEdge TopEdge window el position =
     pos_y position - max 0 (rect_top (containerRect window el))"
| "distanceFromEdge BottomEdge window el position =
     min (innerHeight window) (rect_bottom (containerRect window el)) - pos_y position"
| "distanceFromEdge LeftEdge window el position =
     pos_x position - max 0 (rect_left (containerRect window el))"
| "distanceFromEdge RightEdge window el position =
     min (innerWidth window) (rect_right (containerRect window el)) - pos_x position"

fun canScrollToward :: "Edge \<Rightarrow> ScrollElement \<Rightarrow> bool" where
  "canScrollToward TopEdge el \<longleftrightarrow> scrollTop el > 0"
| "canScrollToward BottomEdge el \<longleftrightarrow> scrollTop el < scrollHeight el - clientHeight el"
| "canScrollToward LeftEdge el \<longleftrightarrow> scrollLeft el > 0"
| "canScrollToward RightEdge el \<longleftrightarrow> scrollLeft el < scrollWidth el - clientWidth el"

definition edgeTriggers ::
  "AutoScrollConfig \<Rightarrow> Edge \<Rightarrow> Viewport \<Rightarrow> ScrollElement \<Rightarrow> Position \<Rightarrow> bool" where
  "edgeTriggers cfg edge window el position \<longleftrightarrow>
     distanceFromEdge edge window el position < threshold cfg \<and> canScrollToward edge el"

text \<open>The magnitude that each of the four edge blocks computes from its distance.\<close>

definition edgeMagnitude :: "AutoScrollConfig \<Rightarrow> real \<Rightarrow> real" where
  "edgeMagnitude cfg distance =
     min (maxSpeed cfg)
       (max (1 / 10) (if distance \<le> 0 then 1 else 1 - distance / threshold cfg)
        * maxSpeed cfg * acceleration cfg)"

fun axisSpeed :: "Edge \<Rightarrow> Position \<Rightarrow> real" where
  "axisSpeed TopEdge speed = pos_y speed"
| "axisSpeed BottomEdge speed = pos_y speed"
| "axisSpeed LeftEdge speed = pos_x speed"
| "axisSpeed RightEdge speed = pos_x speed"

text \<open>
  The speed magnitude as the specification words it, as a function of the distance
  from the edge: 0 from the threshold on, and below it the capped product of intensity,
  maximum speed and acceleration, the intensity floored at one tenth.
\<close>

definition claimedSpeed :: "real \<Rightarrow> real \<Rightarrow> real \<Rightarrow> real \<Rightarrow> real" where
  "claimedSpeed thresholdPx maxSpeedPx accel distance =
     (if distance \<ge> thresholdPx then 0
      else min maxSpeedPx
             (max (1 / 10) (if distance \<le> 0 then 1 else 1 - distance / thresholdPx)
              * maxSpeedPx * accel))"

text \<open>
  The displacement as the specification words it: backward by one extent between the
  origin (excluded) and the over index (included) when dragging toward higher indices,
  forward by one extent between the over index (included) and the origin (excluded)
  when dragging toward lower indices, none otherwise.
\<close>

definition specDisplacement :: "int \<Rightarrow> int \<Rightarrow> int \<Rightarrow> real \<Rightarrow> real option" where
  "specDisplacement originIndex overIdx index draggedExtent =
     (if originIndex < overIdx \<and> originIndex < index \<and> index \<le> overIdx
      then Some (- draggedExtent)
      else if originIndex > overIdx \<and> overIdx \<le> index \<and> index < originIndex
      then Some draggedExtent
      else None)"

text \<open>
  The three fields that say a drag is in progress agree: \<open>isDragging\<close> holds exactly when
  \<open>draggedId\<close> is set, and exactly when \<open>draggedIndex\<close> is set.
\<close>

definition coherent :: "DragState \<Rightarrow> bool" where
  "coherent st \<longleftrightarrow>
     (isDragging st \<longleftrightarrow> draggedId st \<noteq> None) \<and> (isDragging st \<longleftrightarrow> draggedIndex st \<noteq> None)"

text \<open>A concrete list for the examples: three stacked items in a 400 by 800 window.\<close>

definition boxElement :: "real \<Rightarrow> real \<Rightarrow> real \<Rightarrow> real \<Rightarrow> nat \<Rightarrow> HTMLElement" where
  "boxElement l t r b h =
     \<lparr>boundingClientRect = \<lparr>rect_left = l, rect_top = t, rect_right = r, rect_bottom = b\<rparr>,
      offsetHeight = h, scrollContainer = None\<rparr>"

definition threeItems :: "DragDropContextConfig \<Rightarrow> Provider" where
  "threeItems cfg =
     snd (run [RegisterItem ''a'' 0 (boxElement 0 0 100 50 50),
               RegisterItem ''b'' 1 (boxElement 0 66 100 116 50),
               RegisterItem ''c'' 2 (boxElement 0 132 100 182 50)]
              (initialProvider cfg \<lparr>innerWidth = 400, innerHeight = 800\<rparr>))"

text \<open>
  Item \<open>a\<close> of that list picked up at (10, 20) and carried over item \<open>c\<close>, with the given
  axis lock.
\<close>

definition draggingOverC :: "Axis option \<Rightarrow> Provider" where
  "draggingOverC lock =
     snd (run [StartDrag ''a'' 0 \<lparr>pos_x = 10, pos_y = 20\<rparr> (boxElement 0 0 100 50 50),
               UpdateDrag \<lparr>pos_x = 10, pos_y = 140\<rparr>]
              (threeItems (DEFAULT_CONFIG\<lparr>lockAxis := lock\<rparr>)))"

text \<open>
  Five stacked items, \<open>i0\<close> to \<open>i4\<close>, each 50 high with a gap of 16; item \<open>i1\<close> carried over
  \<open>i3\<close>, and item \<open>i3\<close> carried over \<open>i1\<close>.
\<close>

definition fiveItems :: Provider where
  "fiveItems =
     snd (run [RegisterItem ''i0'' 0 (boxElement 0 0 100 50 50),
               RegisterItem ''i1'' 1 (boxElement 0 66 100 116 50),
               RegisterItem ''i2'' 2 (boxElement 0 132 100 182 50),
               RegisterItem ''i3'' 3 (boxElement 0 198 100 248 50),
               RegisterItem ''i4'' 4 (boxElement 0 264 100 314 50)]
              (initialProvider DEFAULT_CONFIG \<lparr>innerWidth = 400, innerHeight = 800\<rparr>))"

definition dragOneToThree :: Provider where
  "dragOneToThree =
     snd (run [StartDrag ''i1'' 1 \<lparr>pos_x = 10, pos_y = 80\<rparr> (boxElement 0 66 100 116 50),
               UpdateDrag \<lparr>pos_x = 10, pos_y = 210\<rparr>] fiveItems)"

definition dragThreeToOne :: Provider where
  "dragThreeToOne =
     snd (run [StartDrag ''i3'' 3 \<lparr>pos_x = 10, pos_y = 210\<rparr> (boxElement 0 198 100 248 50),
               UpdateDrag \<lparr>pos_x = 10, pos_y = 80\<rparr>] fiveItems)"

text \<open>
  Two stacked items 50 high with a gap of 10 between them, item \<open>a\<close> carried over item \<open>b\<close>.
\<close>

definition dragOverNearNeighbour :: Provider where
  "dragOverNearNeighbour =
     snd (run [RegisterItem ''a'' 0 (boxElement 0 0 100 50 50),
               RegisterItem ''b'' 1 (boxElement 0 60 100 110 50),
               StartDrag ''a'' 0 \<lparr>pos_x = 10, pos_y = 20\<rparr> (boxElement 0 0 100 50 50),
               UpdateDrag \<lparr>pos_x = 10, pos_y = 70\<rparr>]
              (initialProvider DEFAULT_CONFIG \<lparr>innerWidth = 400, innerHeight = 800\<rparr>))"

text \<open>
  A scroll container 100 high in the example window, scrolled to 50 of a content 1000
  high: it can scroll both up and down, and both edges are within 80 of a pointer at
  height 30. The same container 400 high: the bottom edge is far from that pointer.
\<close>

definition lowContainer :: ScrollElement where
  "lowContainer =
     \<lparr>boundingRect = Some \<lparr>rect_left = 0, rect_top = 0, rect_right = 300, rect_bottom = 100\<rparr>,
      scrollTop = 50, scrollLeft = 0, scrollHeight = 1000, clientHeight = 100,
      scrollWidth = 300, clientWidth = 300\<rparr>"

definition tallContainer :: ScrollElement where
  "tallContainer =
     \<lparr>boundingRect = Some \<lparr>rect_left = 0, rect_top = 0, rect_right = 300, rect_bottom = 400\<rparr>,
      scrollTop = 50, scrollLeft = 0, scrollHeight = 1000, clientHeight = 400,
      scrollWidth = 300, clientWidth = 300\<rparr>"

definition exampleWindow :: Viewport where
  "exampleWindow = \<lparr>innerWidth = 400, innerHeight = 800\<rparr>"

section \<open>Properties of the array utilities\<close>

lemma arrayMove_result:
  assumes "array < length h" "i < length (h ! array)" "j < length (h ! array)"
  shows "arrayMove h array (int i) (int j) =
           (h @ [take j (take i (h ! array) @ drop (Suc i) (h ! array)) @ [(h ! array) ! i]
                 @ drop j (take i (h ! array) @ drop (Suc i) (h ! array))],
            length h)"
proof -
  let ?xs = "h ! array"
  let ?ys = "take i ?xs @ drop (Suc i) ?xs"
  have len_ys: "length ?ys = length ?xs - 1"
    using assms(2) by simp
  have rem: "take (Suc 0) (drop i ?xs) = [?xs ! i]"
    using assms(2) by (simp add: take_Suc_conv_app_nth hd_drop_conv_nth take_Suc)
  have s1: "splice_js (h @ [?xs]) (length h) (int i) 1 [] = (h @ [?ys], [?xs ! i])"
    using assms(2) rem by (simp add: splice_js_def relativeStart_def Let_def min_def max_def)
  have s2: "splice_js (h @ [?ys]) (length h) (int j) 0 [?xs ! i]
              = (h @ [take j ?ys @ [?xs ! i] @ drop j ?ys], [])"
  proof -
    have "j \<le> length ?ys" using assms(2,3) len_ys by linarith
    then show ?thesis
      by (simp add: splice_js_def relativeStart_def Let_def min_def max_def)
  qed
  show ?thesis
    unfolding arrayMove_def spread_def using s1 s2 by (simp add: Let_def)
qed


lemma move_list_facts:
  assumes "i < length xs" "j < length xs"
  defines "ys \<equiv> take i xs @ drop (Suc i) xs"
  defines "zs \<equiv> take j ys @ [xs ! i] @ drop j ys"
  shows "length zs = length xs"
    and "mset zs = mset xs"
    and "zs ! j = xs ! i"
    and "take j zs @ drop (Suc j) zs = ys"
    and "i = j \<Longrightarrow> zs = xs"
proof -
  have len_ys: "length ys = length xs - 1" and j_le: "j \<le> length ys"
    using assms(1,2) by (simp_all add: ys_def)
  show "length zs = length xs"
    using assms(1) len_ys j_le by (simp add: zs_def)
  have "mset ys = mset (take j ys) + mset (drop j ys)"
    by (metis append_take_drop_id mset_append)
  then have m1: "mset zs = mset ys + {#xs ! i#}"
    by (simp add: zs_def)
  have "mset xs = mset (take i xs @ xs ! i # drop (Suc i) xs)"
    using id_take_nth_drop[OF assms(1)] by simp
  then have m2: "mset xs = mset ys + {#xs ! i#}"
    by (simp add: ys_def)
  show "mset zs = mset xs"
    using m1 m2 by simp
  show "zs ! j = xs ! i"
    using j_le by (simp add: zs_def nth_append)
  show "take j zs @ drop (Suc j) zs = ys"
    using j_le by (simp add: zs_def)
  show "zs = xs" if "i = j"
  proof -
    have "take i ys = take i xs" "drop i ys = drop (Suc i) xs"
      using assms(1) by (simp_all add: ys_def)
    then have "zs = take i xs @ xs ! i # drop (Suc i) xs"
      using that by (simp add: zs_def)
    then show ?thesis
      using id_take_nth_drop[OF assms(1)] by simp
  qed
qed


text \<open>
  Claim C10. For in-range indices \<open>i\<close> and \<open>j\<close>, \<open>arrayMove(a, i, j)\<close> returns a new array
  (a fresh reference, every array already in the store unchanged, so the input is
  unmodified) of the same length, a permutation of \<open>a\<close>, with the element formerly at
  \<open>i\<close> at \<open>j\<close>, and with the other elements in their former relative order: deleting
  position \<open>j\<close> from the result gives what deleting position \<open>i\<close> from \<open>a\<close> gives. For
  \<open>i = j\<close> the result equals \<open>a\<close> element-wise.
\<close>

theorem arrayMove_permutation:
  assumes "array < length h" "i < length (h ! array)" "j < length (h ! array)"
    and "arrayMove h array (int i) (int j) = (h', r)"
  shows "r \<noteq> array \<and> r < length h' \<and> take (length h) h' = h
    \<and> h' ! array = h ! array
    \<and> length (h' ! r) = length (h ! array)
    \<and> mset (h' ! r) = mset (h ! array)
    \<and> h' ! r ! j = h ! array ! i
    \<and> take j (h' ! r) @ drop (Suc j) (h' ! r) = take i (h ! array) @ drop (Suc i) (h ! array)
    \<and> (i = j \<longrightarrow> h' ! r = h ! array)"
proof -
  let ?xs = "h ! array"
  let ?ys = "take i ?xs @ drop (Suc i) ?xs"
  let ?zs = "take j ?ys @ [?xs ! i] @ drop j ?ys"
  from arrayMove_result[OF assms(1-3)] assms(4)
  have h': "h' = h @ [?zs]" and r: "r = length h"
    by simp_all
  have new: "h' ! r = ?zs"
    by (simp add: h' r)
  have old: "h' ! array = ?xs"
    using assms(1) by (simp add: h' nth_append)
  have c1: "r \<noteq> array \<and> r < length h' \<and> take (length h) h' = h"
    using assms(1) by (simp add: h' r)
  have c2: "length (h' ! r) = length ?xs"
    unfolding new by (rule move_list_facts(1)[OF assms(2,3)])
  have c3: "mset (h' ! r) = mset ?xs"
    unfolding new by (rule move_list_facts(2)[OF assms(2,3)])
  have c4: "h' ! r ! j = ?xs ! i"
    unfolding new by (rule move_list_facts(3)[OF assms(2,3)])
  have c5: "take j (h' ! r) @ drop (Suc j) (h' ! r) = ?ys"
    unfolding new by (rule move_list_facts(4)[OF assms(2,3)])
  have c6: "i = j \<longrightarrow> h' ! r = ?xs"
    unfolding new using move_list_facts(5)[OF assms(2,3)] by blast
  from c1 old c2 c3 c4 c5 c6 show ?thesis
    by blast
qed

theorem arrayMove_permutation_witness:
  "arrayMove [[Some (10::nat), Some 20, Some 30, Some 40]] 0 (int 1) (int 3)
     = ([[Some 10, Some 20, Some 30, Some 40], [Some 10, Some 30, Some 40, Some 20]], 1)
   \<and> [Some (10::nat), Some 30, Some 40, Some 20] ! 3 = Some 20
   \<and> mset [Some (10::nat), Some 30, Some 40, Some 20] = mset [Some 10, Some 20, Some 30, Some 40]
   \<and> arrayMove [[Some (10::nat), Some 20, Some 30, Some 40]] 0 (int 2) (int 2)
     = ([[Some 10, Some 20, Some 30, Some 40], [Some 10, Some 20, Some 30, Some 40]], 1)"
proof -
  let ?h = "[[Some (10::nat), Some 20, Some 30, Some 40]]"
  let ?h' = "[[Some (10::nat), Some 20, Some 30, Some 40], [Some 10, Some 30, Some 40, Some 20]]"
  let ?k = "[[Some (10::nat), Some 20, Some 30, Some 40], [Some 10, Some 20, Some 30, Some 40]]"
  have run: "arrayMove ?h 0 (int 1) (int 3) = (?h', 1)"
    by code_simp
  have same: "arrayMove ?h 0 (int 2) (int 2) = (?k, 1)"
    by code_simp
  have r: "(0::nat) < length ?h" "(1::nat) < length (?h ! 0)" "(3::nat) < length (?h ! 0)"
    "(2::nat) < length (?h ! 0)"
    by simp_all
  from arrayMove_permutation[OF r(1,2,3) run] arrayMove_permutation[OF r(1,4,4) same] run same
  show ?thesis
    by simp
qed

section \<open>Properties of the drag session\<close>

lemma updateDrag_keeps:
  "isDragging (state (snd (updateDrag position p))) = isDragging (state p)"
  "draggedId (state (snd (updateDrag position p))) = draggedId (state p)"
  "draggedIndex (state (snd (updateDrag position p))) = draggedIndex (state p)"
  "initialPosition (state (snd (updateDrag position p))) = initialPosition (state p)"
  "initialIndexRef (snd (updateDrag position p)) = initialIndexRef p"
  "config (snd (updateDrag position p)) = config p"
  "itemsRef (snd (updateDrag position p)) = itemsRef p"
  by (simp_all add: updateDrag_def Let_def)

lemma run_moves_keep:
  "isDragging (state (snd (run (map UpdateDrag moves) p))) = isDragging (state p)
   \<and> draggedId (state (snd (run (map UpdateDrag moves) p))) = draggedId (state p)
   \<and> draggedIndex (state (snd (run (map UpdateDrag moves) p))) = draggedIndex (state p)
   \<and> initialPosition (state (snd (run (map UpdateDrag moves) p))) = initialPosition (state p)
   \<and> initialIndexRef (snd (run (map UpdateDrag moves) p)) = initialIndexRef p
   \<and> config (snd (run (map UpdateDrag moves) p)) = config p
   \<and> itemsRef (snd (run (map UpdateDrag moves) p)) = itemsRef p"
proof (induction moves arbitrary: p)
  case Nil
  show ?case by simp
next
  case (Cons m moves)
  have "snd (run (map UpdateDrag (m # moves)) p)
          = snd (run (map UpdateDrag moves) (snd (updateDrag m p)))"
    by (simp add: case_prod_unfold Let_def)
  then show ?case
    using Cons.IH[of "snd (updateDrag m p)"] by (simp add: updateDrag_keeps)
qed

lemma startDrag_fields:
  "isDragging (state (snd (startDrag ident index position element p)))"
  "draggedId (state (snd (startDrag ident index position element p))) = Some ident"
  "draggedIndex (state (snd (startDrag ident index position element p))) = Some index"
  "overIndex (state (snd (startDrag ident index position element p))) = Some index"
  "initialPosition (state (snd (startDrag ident index position element p))) = Some position"
  "initialIndexRef (snd (startDrag ident index position element p)) = Some index"
  by (simp_all add: startDrag_def startDragResume_def startDragBegin_def Let_def)

lemma endDrag_dragEnds:
  assumes "isDragging (state p)"
  shows "dragEnds (fst (endDrag cancelled p)) =
           [DragEnd (draggedId (state p))
              (case initialIndexRef p of Some i \<Rightarrow> i
               | None \<Rightarrow> (case draggedIndex (state p) of Some i \<Rightarrow> i | None \<Rightarrow> 0))
              (if cancelled
               then (case initialIndexRef p of Some i \<Rightarrow> i
                     | None \<Rightarrow> (case draggedIndex (state p) of Some i \<Rightarrow> i | None \<Rightarrow> 0))
               else (case overIndex (state p) of Some i \<Rightarrow> i
                     | None \<Rightarrow> (case initialIndexRef p of Some i \<Rightarrow> i
                          | None \<Rightarrow> (case draggedIndex (state p) of Some i \<Rightarrow> i | None \<Rightarrow> 0))))
              cancelled]"
  using assms by (simp add: endDrag_def dragEnds_def Let_def)


lemma threeItems_simps:
  "config (threeItems cfg) = cfg"
  "state (threeItems cfg) = idleState"
  "itemsRef (threeItems cfg) = [(''a'', 0, boxElement 0 0 100 50 50),
      (''b'', 1, boxElement 0 66 100 116 50), (''c'', 2, boxElement 0 132 100 182 50)]"
  "initialIndexRef (threeItems cfg) = None"
  by (simp_all add: threeItems_def initialProvider_def registerItem_def)

lemma draggingOverC_fields:
  "config (draggingOverC lock) = DEFAULT_CONFIG\<lparr>lockAxis := lock\<rparr>"
  "itemsRef (draggingOverC lock) = [(''a'', 0, boxElement 0 0 100 50 50),
      (''b'', 1, boxElement 0 66 100 116 50), (''c'', 2, boxElement 0 132 100 182 50)]"
  "initialIndexRef (draggingOverC lock) = Some 0"
  "isDragging (state (draggingOverC lock))"
  "draggedId (state (draggingOverC lock)) = Some ''a''"
  "draggedIndex (state (draggingOverC lock)) = Some 0"
  "initialPosition (state (draggingOverC lock)) = Some \<lparr>pos_x = 10, pos_y = 20\<rparr>"
  by (simp_all add: draggingOverC_def threeItems_simps startDrag_def startDragBegin_def
      startDragResume_def updateDrag_def Let_def)

lemma draggingOverC_over:
  "overIndex (state (draggingOverC None)) = Some 2"
  "overIndex (state (draggingOverC (Some AxisX))) = Some 0"
  "overIndex (state (draggingOverC (Some AxisY))) = Some 2"
  by (simp_all add: draggingOverC_def threeItems_simps startDrag_def startDragBegin_def
      startDragResume_def updateDrag_def applyAxisLock_def findItemAtPosition_def
      boxElement_def Let_def DEFAULT_CONFIG_def)



lemma endDrag_coherent:
  "coherent (state p) \<Longrightarrow> coherent (state (snd (endDrag c p)))"
  by (auto simp: endDrag_def coherent_def idleState_def Let_def)

lemma windowEvent_coherent:
  "coherent (state p) \<Longrightarrow> coherent (state (snd (windowEvent ev p)))"
  using endDrag_coherent[of p] by (cases ev) (simp_all add: windowEvent_def)

lemma updateDrag_coherent:
  "coherent (state p) \<Longrightarrow> coherent (state (snd (updateDrag position p)))"
  by (auto simp: updateDrag_def coherent_def Let_def)

lemma step_coherent:
  assumes "coherent (state p)"
  shows "coherent (state (snd (step a p)))"
proof (cases a)
  case (Window ev)
  then show ?thesis using windowEvent_coherent[OF assms] by simp
next
  case (UpdateDrag position)
  then show ?thesis using updateDrag_coherent[OF assms] by simp
next
  case (EndDrag c)
  then show ?thesis using endDrag_coherent[OF assms] by simp
qed (use assms in \<open>auto simp: registerItem_def unregisterItem_def startDragBegin_def
      startDragResume_def startDrag_def handleScrollDelta_def coherent_def Let_def\<close>)

lemma run_coherent:
  "coherent (state p) \<Longrightarrow> coherent (state (snd (run actions p)))"
proof (induction actions arbitrary: p)
  case Nil
  then show ?case by simp
next
  case (Cons a actions)
  have "snd (run (a # actions) p) = snd (run actions (snd (step a p)))"
    by (simp add: case_prod_unfold Let_def)
  then show ?case
    using Cons.IH[OF step_coherent[OF Cons.prems]] by simp
qed

text \<open>
  Claim C9. The initial state is coherent, every action keeps it coherent (the state
  updates of \<open>startDrag\<close> and \<open>endDrag\<close> write \<open>isDragging\<close>, \<open>draggedId\<close> and \<open>draggedIndex\<close>
  together, \<open>updateDrag\<close> writes none of them), and so in every state reachable from the
  initial one by any run of actions, the two halves of \<open>startDrag\<close> interleaved with
  anything included, \<open>isDragging\<close> holds exactly when \<open>draggedId\<close> is set and exactly
  when \<open>draggedIndex\<close> is set.
\<close>

theorem dragging_iff_dragged_identity:
  "coherent (state (initialProvider cfg w))
   \<and> (coherent (state p) \<longrightarrow> coherent (state (snd (step a p))))
   \<and> (let st = state (snd (run actions (initialProvider cfg w)))
      in (isDragging st \<longleftrightarrow> draggedId st \<noteq> None) \<and> (isDragging st \<longleftrightarrow> draggedIndex st \<noteq> None))"
proof -
  have init: "coherent (state (initialProvider cfg w))"
    by (simp add: initialProvider_def idleState_def coherent_def)
  have "coherent (state (snd (run actions (initialProvider cfg w))))"
    by (rule run_coherent[OF init])
  then have fin: "let st = state (snd (run actions (initialProvider cfg w)))
      in (isDragging st \<longleftrightarrow> draggedId st \<noteq> None) \<and> (isDragging st \<longleftrightarrow> draggedIndex st \<noteq> None)"
    unfolding Let_def coherent_def .
  from init step_coherent[of p a] fin show ?thesis
    by blast
qed

theorem dragging_iff_dragged_identity_witness:
  "coherent (state (threeItems DEFAULT_CONFIG))
   \<and> coherent (state (snd (step (StartDrag ''a'' 0 \<lparr>pos_x = 10, pos_y = 20\<rparr> (boxElement 0 0 100 50 50))
                              (threeItems DEFAULT_CONFIG))))
   \<and> isDragging (state (snd (step (StartDrag ''a'' 0 \<lparr>pos_x = 10, pos_y = 20\<rparr> (boxElement 0 0 100 50 50))
                              (threeItems DEFAULT_CONFIG))))"
proof -
  have c: "coherent (state (threeItems DEFAULT_CONFIG))"
    by (simp add: threeItems_simps coherent_def idleState_def)
  from dragging_iff_dragged_identity
         [of DEFAULT_CONFIG undefined "threeItems DEFAULT_CONFIG"
             "StartDrag ''a'' 0 \<lparr>pos_x = 10, pos_y = 20\<rparr> (boxElement 0 0 100 50 50)" "[]"] c
  show ?thesis
    by (simp add: startDrag_fields)
qed

lemma findItemLoop_find:
  "findItemLoop entries dragged position =
     map_option (\<lambda>(ident, index, element). (ident, index))
       (find (\<lambda>(ident, index, element).
                Some ident \<noteq> dragged \<and> rectContains (boundingClientRect element) position)
             entries)"
  by (induction entries dragged position rule: findItemLoop.induct)
     (auto simp: rectContains_def Let_def)

lemma updateDrag_overIndex:
  assumes "isDragging (state p)"
  shows "overIndex (state (snd (updateDrag position p))) =
           (case findItemAtPosition p
                   (applyAxisLock (lockAxis (config p)) (initialPosition (state p)) position) of
              Some (_, index) \<Rightarrow> Some index
            | None \<Rightarrow> overIndex (state p))"
  using assms by (simp add: updateDrag_def Let_def)

text \<open>
  Claim C4. The hit test returns the first registered entry, in the registry's order,
  whose id is not the dragged id and whose bounding rectangle contains the position,
  edges included, and nothing when there is none. For the bounds left 0, top 0, right
  100, bottom 50 the point (100, 50) is contained and (101, 50) is not, in the
  predicate and in the loop itself. When the hit test finds nothing for the position
  of a move, the move leaves \<open>overIndex\<close> at its previous value.
\<close>

theorem hit_test_first_containing_rect:
  "findItemAtPosition p position =
     map_option (\<lambda>(ident, index, element). (ident, index))
       (find (\<lambda>(ident, index, element).
                Some ident \<noteq> draggedId (state p)
                \<and> rectContains (boundingClientRect element) position)
             (itemsRef p))
   \<and> rectContains \<lparr>rect_left = 0, rect_top = 0, rect_right = 100, rect_bottom = 50\<rparr>
        \<lparr>pos_x = 100, pos_y = 50\<rparr>
   \<and> \<not> rectContains \<lparr>rect_left = 0, rect_top = 0, rect_right = 100, rect_bottom = 50\<rparr>
        \<lparr>pos_x = 101, pos_y = 50\<rparr>
   \<and> (dragged \<noteq> Some ident \<longrightarrow>
        findItemLoop [(ident, index, boxElement 0 0 100 50 h)] dragged \<lparr>pos_x = 100, pos_y = 50\<rparr>
          = Some (ident, index)
        \<and> findItemLoop [(ident, index, boxElement 0 0 100 50 h)] dragged \<lparr>pos_x = 101, pos_y = 50\<rparr>
          = None)
   \<and> (isDragging (state p)
        \<and> findItemAtPosition p
             (applyAxisLock (lockAxis (config p)) (initialPosition (state p)) position) = None
        \<longrightarrow> overIndex (state (snd (updateDrag position p))) = overIndex (state p))"
proof (intro conjI impI)
  show "findItemAtPosition p position =
     map_option (\<lambda>(ident, index, element). (ident, index))
       (find (\<lambda>(ident, index, element).
                Some ident \<noteq> draggedId (state p)
                \<and> rectContains (boundingClientRect element) position)
             (itemsRef p))"
    unfolding findItemAtPosition_def by (rule findItemLoop_find)
  show "rectContains \<lparr>rect_left = 0, rect_top = 0, rect_right = 100, rect_bottom = 50\<rparr>
        \<lparr>pos_x = 100, pos_y = 50\<rparr>"
    by (simp add: rectContains_def)
  show "\<not> rectContains \<lparr>rect_left = 0, rect_top = 0, rect_right = 100, rect_bottom = 50\<rparr>
        \<lparr>pos_x = 101, pos_y = 50\<rparr>"
    by (simp add: rectContains_def)
  assume "dragged \<noteq> Some ident"
  then show "findItemLoop [(ident, index, boxElement 0 0 100 50 h)] dragged
               \<lparr>pos_x = 100, pos_y = 50\<rparr> = Some (ident, index)"
    and "findItemLoop [(ident, index, boxElement 0 0 100 50 h)] dragged
               \<lparr>pos_x = 101, pos_y = 50\<rparr> = None"
    by (auto simp: boxElement_def Let_def)
next
  assume "isDragging (state p)
        \<and> findItemAtPosition p
             (applyAxisLock (lockAxis (config p)) (initialPosition (state p)) position) = None"
  then show "overIndex (state (snd (updateDrag position p))) = overIndex (state p)"
    using updateDrag_overIndex[of p position] by simp
qed

theorem hit_test_first_containing_rect_witness:
  "isDragging (state (draggingOverC None))
   \<and> findItemAtPosition (draggingOverC None) \<lparr>pos_x = 10, pos_y = 60\<rparr> = None
   \<and> overIndex (state (draggingOverC None)) = Some 2
   \<and> overIndex (state (snd (updateDrag \<lparr>pos_x = 10, pos_y = 60\<rparr> (draggingOverC None)))) = Some 2
   \<and> findItemAtPosition (draggingOverC None) \<lparr>pos_x = 10, pos_y = 20\<rparr> = None
   \<and> findItemAtPosition (draggingOverC None) \<lparr>pos_x = 100, pos_y = 116\<rparr> = Some (''b'', 1)"
proof -
  have lock: "applyAxisLock (lockAxis (config (draggingOverC None)))
                (initialPosition (state (draggingOverC None))) \<lparr>pos_x = 10, pos_y = 60\<rparr>
              = \<lparr>pos_x = 10, pos_y = 60\<rparr>"
    by (simp add: draggingOverC_fields applyAxisLock_def DEFAULT_CONFIG_def)
  have miss: "findItemAtPosition (draggingOverC None) \<lparr>pos_x = 10, pos_y = 60\<rparr> = None"
    and own: "findItemAtPosition (draggingOverC None) \<lparr>pos_x = 10, pos_y = 20\<rparr> = None"
    and hit: "findItemAtPosition (draggingOverC None) \<lparr>pos_x = 100, pos_y = 116\<rparr> = Some (''b'', 1)"
    by (simp_all add: findItemAtPosition_def draggingOverC_fields boxElement_def Let_def)
  from hit_test_first_containing_rect
         [of "draggingOverC None" "\<lparr>pos_x = 10, pos_y = 60\<rparr>" "Some ''a''" "''b''" 1 50]
  show ?thesis
    using lock miss own hit by (simp add: draggingOverC_fields draggingOverC_over)
qed

lemma applyAxisLock_None:
  "applyAxisLock None initial position = position"
  by (simp add: applyAxisLock_def split: option.splits)

lemma updateDrag_dragOvers:
  assumes "isDragging (state p)"
  shows "dragOvers (fst (updateDrag position p)) =
           (case findItemAtPosition p
                   (applyAxisLock (lockAxis (config p)) (initialPosition (state p)) position) of
              Some (overId, index) \<Rightarrow>
                [DragOver (draggedId (state p)) (draggedIndex (state p)) index overId index]
            | None \<Rightarrow> [])"
  using assms by (simp add: updateDrag_def dragOvers_def Let_def split: option.splits)

text \<open>
  Claim C5 as stated fails: with item \<open>a\<close> dragged and the pointer over item \<open>c\<close>
  (\<open>overIndex\<close> 2), a further move inside \<open>c\<close> leaves \<open>overIndex\<close> at 2 and still emits a
  drag-over.
\<close>

theorem drag_over_repeats_counterexample:
  "isDragging (state (draggingOverC None))
   \<and> overIndex (state (draggingOverC None)) = Some 2
   \<and> overIndex (state (snd (updateDrag \<lparr>pos_x = 20, pos_y = 150\<rparr> (draggingOverC None)))) = Some 2
   \<and> dragOvers (fst (updateDrag \<lparr>pos_x = 20, pos_y = 150\<rparr> (draggingOverC None)))
       = [DragOver (Some ''a'') (Some 0) 2 ''c'' 2]"
proof -
  note lock = applyAxisLock_None
  have hit: "findItemAtPosition (draggingOverC None) \<lparr>pos_x = 20, pos_y = 150\<rparr> = Some (''c'', 2)"
    by (simp add: findItemAtPosition_def draggingOverC_fields boxElement_def Let_def)
  show ?thesis
    using updateDrag_dragOvers[of "draggingOverC None" "\<lparr>pos_x = 20, pos_y = 150\<rparr>"]
      updateDrag_overIndex[of "draggingOverC None" "\<lparr>pos_x = 20, pos_y = 150\<rparr>"]
    by (simp add: lock hit draggingOverC_fields draggingOverC_over)
qed

text \<open>
  Claim C5, as amended. During an active drag a handled pointer move emits a drag-over
  exactly when the hit test finds an item under the (axis-locked) position, carrying
  that item's index, whether or not \<open>overIndex\<close> has changed; a move for which the hit
  test finds nothing emits none. So every change of \<open>overIndex\<close> comes with a drag-over
  for the new index; a move handled while no drag is active does nothing.
\<close>

theorem drag_over_iff_item_under_pointer:
  "(isDragging (state p) \<longrightarrow>
      dragOvers (fst (updateDrag position p)) =
        (case findItemAtPosition p
                (applyAxisLock (lockAxis (config p)) (initialPosition (state p)) position) of
           Some (overId, index) \<Rightarrow>
             [DragOver (draggedId (state p)) (draggedIndex (state p)) index overId index]
         | None \<Rightarrow> [])
      \<and> (overIndex (state (snd (updateDrag position p))) \<noteq> overIndex (state p) \<longrightarrow>
           (\<exists>overId index.
              overIndex (state (snd (updateDrag position p))) = Some index
              \<and> dragOvers (fst (updateDrag position p)) =
                  [DragOver (draggedId (state p)) (draggedIndex (state p)) index overId index])))
   \<and> (\<not> isDragging (state p) \<longrightarrow> updateDrag position p = ([], p))"
proof (intro conjI impI)
  assume act: "isDragging (state p)"
  show "dragOvers (fst (updateDrag position p)) =
        (case findItemAtPosition p
                (applyAxisLock (lockAxis (config p)) (initialPosition (state p)) position) of
           Some (overId, index) \<Rightarrow>
             [DragOver (draggedId (state p)) (draggedIndex (state p)) index overId index]
         | None \<Rightarrow> [])"
    by (rule updateDrag_dragOvers[OF act])
  assume "overIndex (state (snd (updateDrag position p))) \<noteq> overIndex (state p)"
  then show "\<exists>overId index.
              overIndex (state (snd (updateDrag position p))) = Some index
              \<and> dragOvers (fst (updateDrag position p)) =
                  [DragOver (draggedId (state p)) (draggedIndex (state p)) index overId index]"
    using updateDrag_dragOvers[OF act, of position] updateDrag_overIndex[OF act, of position]
    by (auto split: option.splits)
next
  assume "\<not> isDragging (state p)"
  then show "updateDrag position p = ([], p)"
    by (simp add: updateDrag_def)
qed

theorem drag_over_iff_item_under_pointer_witness:
  "isDragging (state (draggingOverC None))
   \<and> overIndex (state (snd (updateDrag \<lparr>pos_x = 20, pos_y = 70\<rparr> (draggingOverC None))))
       \<noteq> overIndex (state (draggingOverC None))
   \<and> dragOvers (fst (updateDrag \<lparr>pos_x = 20, pos_y = 70\<rparr> (draggingOverC None)))
       = [DragOver (Some ''a'') (Some 0) 1 ''b'' 1]
   \<and> dragOvers (fst (updateDrag \<lparr>pos_x = 20, pos_y = 60\<rparr> (draggingOverC None))) = []
   \<and> \<not> isDragging (state (threeItems DEFAULT_CONFIG))
   \<and> updateDrag \<lparr>pos_x = 20, pos_y = 70\<rparr> (threeItems DEFAULT_CONFIG)
       = ([], threeItems DEFAULT_CONFIG)"
proof -
  note lock = applyAxisLock_None
  have hit: "findItemAtPosition (draggingOverC None) \<lparr>pos_x = 20, pos_y = 70\<rparr> = Some (''b'', 1)"
    and miss: "findItemAtPosition (draggingOverC None) \<lparr>pos_x = 20, pos_y = 60\<rparr> = None"
    by (simp_all add: findItemAtPosition_def draggingOverC_fields boxElement_def Let_def)
  have ov: "overIndex (state (snd (updateDrag \<lparr>pos_x = 20, pos_y = 70\<rparr> (draggingOverC None)))) = Some 1"
    using updateDrag_overIndex[of "draggingOverC None" "\<lparr>pos_x = 20, pos_y = 70\<rparr>"]
    by (simp add: lock hit draggingOverC_fields)
  have idle: "\<not> isDragging (state (threeItems DEFAULT_CONFIG))"
    by (simp add: threeItems_simps idleState_def)
  from drag_over_iff_item_under_pointer[of "draggingOverC None" "\<lparr>pos_x = 20, pos_y = 70\<rparr>"]
       drag_over_iff_item_under_pointer[of "draggingOverC None" "\<lparr>pos_x = 20, pos_y = 60\<rparr>"]
       drag_over_iff_item_under_pointer[of "threeItems DEFAULT_CONFIG" "\<lparr>pos_x = 20, pos_y = 70\<rparr>"]
       idle
  show ?thesis
    using ov by (simp add: lock hit miss draggingOverC_fields draggingOverC_over)
qed

lemma updateDrag_currentPosition:
  assumes "isDragging (state p)"
  shows "currentPosition (state (snd (updateDrag position p))) =
           Some (applyAxisLock (lockAxis (config p)) (initialPosition (state p)) position)"
  using assms by (simp add: updateDrag_def Let_def)

text \<open>
  Claim C6 as stated fails: with \<open>lockAxis\<close> \<open>"x"\<close>, activation at (10, 20) and the pointer
  at (30, 40), \<open>currentPosition\<close> is (30, 20): x has followed the pointer and y is the
  pinned coordinate, not (10, 40) as the claim has it.
\<close>

theorem lock_axis_x_pins_x_counterexample:
  "lockAxis (config (draggingOverC (Some AxisX))) = Some AxisX
   \<and> isDragging (state (draggingOverC (Some AxisX)))
   \<and> initialPosition (state (draggingOverC (Some AxisX))) = Some \<lparr>pos_x = 10, pos_y = 20\<rparr>
   \<and> currentPosition (state (snd (updateDrag \<lparr>pos_x = 30, pos_y = 40\<rparr> (draggingOverC (Some AxisX)))))
       = Some \<lparr>pos_x = 30, pos_y = 20\<rparr>
   \<and> currentPosition (state (snd (updateDrag \<lparr>pos_x = 30, pos_y = 40\<rparr> (draggingOverC (Some AxisX)))))
       \<noteq> Some \<lparr>pos_x = 10, pos_y = 40\<rparr>"
  using updateDrag_currentPosition[of "draggingOverC (Some AxisX)" "\<lparr>pos_x = 30, pos_y = 40\<rparr>"]
  by (simp add: draggingOverC_fields applyAxisLock_def)

text \<open>
  Claim C6, as amended. The axis lock confines the motion to the named axis: with
  \<open>lockAxis\<close> \<open>"x"\<close> every handled move keeps the y coordinate of \<open>currentPosition\<close> at its
  activation-time value and lets x follow the pointer; with \<open>"y"\<close> it keeps x and lets
  y follow; with no lock both follow. \<open>initialPosition\<close> is the position given at
  activation and no move changes it.
\<close>

theorem lock_axis_confines_motion_to_axis:
  "(isDragging (state p) \<and> initialPosition (state p) = Some ip \<longrightarrow>
      (lockAxis (config p) = Some AxisX \<longrightarrow>
         currentPosition (state (snd (updateDrag position p)))
           = Some \<lparr>pos_x = pos_x position, pos_y = pos_y ip\<rparr>)
      \<and> (lockAxis (config p) = Some AxisY \<longrightarrow>
         currentPosition (state (snd (updateDrag position p)))
           = Some \<lparr>pos_x = pos_x ip, pos_y = pos_y position\<rparr>)
      \<and> (lockAxis (config p) = None \<longrightarrow>
         currentPosition (state (snd (updateDrag position p))) = Some position)
      \<and> initialPosition (state (snd (updateDrag position p))) = Some ip
      \<and> lockAxis (config (snd (updateDrag position p))) = lockAxis (config p))
   \<and> (let p1 = snd (run (StartDrag ident index start element # map UpdateDrag moves) p0)
      in isDragging (state p1) \<and> initialPosition (state p1) = Some start
         \<and> lockAxis (config p1) = lockAxis (config p0))"
proof (intro conjI impI)
  assume a: "isDragging (state p) \<and> initialPosition (state p) = Some ip"
  then have cur: "currentPosition (state (snd (updateDrag position p))) =
           Some (applyAxisLock (lockAxis (config p)) (Some ip) position)"
    using updateDrag_currentPosition[of p position] by simp
  show "currentPosition (state (snd (updateDrag position p)))
           = Some \<lparr>pos_x = pos_x position, pos_y = pos_y ip\<rparr>"
    if "lockAxis (config p) = Some AxisX"
    using cur that by (simp add: applyAxisLock_def)
  show "currentPosition (state (snd (updateDrag position p)))
           = Some \<lparr>pos_x = pos_x ip, pos_y = pos_y position\<rparr>"
    if "lockAxis (config p) = Some AxisY"
    using cur that by (simp add: applyAxisLock_def)
  show "currentPosition (state (snd (updateDrag position p))) = Some position"
    if "lockAxis (config p) = None"
    using cur that by (simp add: applyAxisLock_def)
  show "initialPosition (state (snd (updateDrag position p))) = Some ip"
    using a by (simp add: updateDrag_keeps)
  show "lockAxis (config (snd (updateDrag position p))) = lockAxis (config p)"
    by (simp add: updateDrag_keeps)
next
  define p1 where "p1 = snd (run (StartDrag ident index start element # map UpdateDrag moves) p0)"
  let ?ps = "snd (startDrag ident index start element p0)"
  have p1: "p1 = snd (run (map UpdateDrag moves) ?ps)"
    by (simp add: p1_def case_prod_unfold Let_def)
  have cfg: "config ?ps = config p0"
    by (simp add: startDrag_def startDragResume_def startDragBegin_def Let_def)
  have "isDragging (state p1) \<and> initialPosition (state p1) = Some start
         \<and> lockAxis (config p1) = lockAxis (config p0)"
    unfolding p1 using run_moves_keep[of moves ?ps] by (simp add: startDrag_fields cfg)
  then show "let p1 = snd (run (StartDrag ident index start element # map UpdateDrag moves) p0)
      in isDragging (state p1) \<and> initialPosition (state p1) = Some start
         \<and> lockAxis (config p1) = lockAxis (config p0)"
    unfolding Let_def p1_def .
qed

theorem lock_axis_confines_motion_to_axis_witness:
  "isDragging (state (draggingOverC (Some AxisY)))
   \<and> initialPosition (state (draggingOverC (Some AxisY))) = Some \<lparr>pos_x = 10, pos_y = 20\<rparr>
   \<and> lockAxis (config (draggingOverC (Some AxisY))) = Some AxisY
   \<and> currentPosition (state (snd (updateDrag \<lparr>pos_x = 30, pos_y = 40\<rparr> (draggingOverC (Some AxisY)))))
       = Some \<lparr>pos_x = 10, pos_y = 40\<rparr>
   \<and> lockAxis (config (draggingOverC (Some AxisX))) = Some AxisX
   \<and> currentPosition (state (snd (updateDrag \<lparr>pos_x = 30, pos_y = 40\<rparr> (draggingOverC (Some AxisX)))))
       = Some \<lparr>pos_x = 30, pos_y = 20\<rparr>
   \<and> lockAxis (config (draggingOverC None)) = None
   \<and> currentPosition (state (snd (updateDrag \<lparr>pos_x = 30, pos_y = 40\<rparr> (draggingOverC None))))
       = Some \<lparr>pos_x = 30, pos_y = 40\<rparr>"
  using lock_axis_confines_motion_to_axis
          [of "draggingOverC (Some AxisY)" "\<lparr>pos_x = 10, pos_y = 20\<rparr>" "\<lparr>pos_x = 30, pos_y = 40\<rparr>"]
        lock_axis_confines_motion_to_axis
          [of "draggingOverC (Some AxisX)" "\<lparr>pos_x = 10, pos_y = 20\<rparr>" "\<lparr>pos_x = 30, pos_y = 40\<rparr>"]
        lock_axis_confines_motion_to_axis
          [of "draggingOverC None" "\<lparr>pos_x = 10, pos_y = 20\<rparr>" "\<lparr>pos_x = 30, pos_y = 40\<rparr>"]
  by (simp add: draggingOverC_fields)

text \<open>
  Claim C7 as stated fails: item \<open>a\<close> is dragged from index 0 over item \<open>c\<close> at index 2,
  then \<open>a\<close> is unregistered (the registry no longer has it) and the session stays
  active; the pointer-up that follows emits a drag-end from 0 to 2 with \<open>cancelled\<close>
  false.
\<close>

theorem unregistered_dragged_item_commits_counterexample:
  "getItemElement (snd (run [UnregisterItem ''a''] (draggingOverC None))) ''a'' = None
   \<and> isDragging (state (snd (run [UnregisterItem ''a''] (draggingOverC None))))
   \<and> dragEnds (fst (run [UnregisterItem ''a'', Window PointerUp] (draggingOverC None)))
       = [DragEnd (Some ''a'') 0 2 False]"
  using endDrag_dragEnds[of "unregisterItem ''a'' (draggingOverC None)" False]
  by (simp add: unregisterItem_def getItemElement_def windowEvent_def
      draggingOverC_fields draggingOverC_over)

text \<open>
  Claim C7, as amended. Unregistering an item, the dragged one included, changes the
  registry only: the drag state and the refs are as before, nothing is emitted, and
  every later end of the drag emits what it would have emitted without the removal. In
  an active session pointer-up still commits, with \<open>cancelled\<close> false and \<open>toIndex\<close> the
  current \<open>overIndex\<close>; only the cancel paths give \<open>cancelled\<close> true and \<open>toIndex\<close> equal to
  \<open>fromIndex\<close>.
\<close>

theorem unregistration_leaves_session_unchanged:
  "state (unregisterItem ident p) = state p
   \<and> initialIndexRef (unregisterItem ident p) = initialIndexRef p
   \<and> step (UnregisterItem ident) p = ([], unregisterItem ident p)
   \<and> fst (endDrag c (unregisterItem ident p)) = fst (endDrag c p)
   \<and> fst (windowEvent ev (unregisterItem ident p)) = fst (windowEvent ev p)
   \<and> fst (cancel (unregisterItem ident p)) = fst (cancel p)
   \<and> (isDragging (state p) \<longrightarrow>
        (\<exists>f. dragEnds (fst (windowEvent PointerUp (unregisterItem ident p))) =
               [DragEnd (draggedId (state p)) f
                  (case overIndex (state p) of Some i \<Rightarrow> i | None \<Rightarrow> f) False]
            \<and> dragEnds (fst (windowEvent PointerCancel (unregisterItem ident p))) =
               [DragEnd (draggedId (state p)) f f True]))"
proof -
  have st: "state (unregisterItem ident p) = state p"
    and ref: "initialIndexRef (unregisterItem ident p) = initialIndexRef p"
    and cfg: "config (unregisterItem ident p) = config p"
    by (simp_all add: unregisterItem_def)
  have e: "fst (endDrag c (unregisterItem ident p)) = fst (endDrag c p)" for c
    by (simp add: endDrag_def st ref cfg Let_def cong: option.case_cong)
  have w: "fst (windowEvent ev (unregisterItem ident p)) = fst (windowEvent ev p)" for ev
    by (cases ev) (simp_all add: windowEvent_def st e)
  have c: "fst (cancel (unregisterItem ident p)) = fst (cancel p)"
    by (simp add: cancel_def e)
  have fin: "\<exists>f. dragEnds (fst (windowEvent PointerUp (unregisterItem ident p))) =
               [DragEnd (draggedId (state p)) f
                  (case overIndex (state p) of Some i \<Rightarrow> i | None \<Rightarrow> f) False]
            \<and> dragEnds (fst (windowEvent PointerCancel (unregisterItem ident p))) =
               [DragEnd (draggedId (state p)) f f True]"
    if act: "isDragging (state p)"
  proof -
    let ?f = "case initialIndexRef p of Some i \<Rightarrow> i
              | None \<Rightarrow> (case draggedIndex (state p) of Some i \<Rightarrow> i | None \<Rightarrow> 0)"
    have "fst (windowEvent PointerUp p) = fst (endDrag False p)"
      and "fst (windowEvent PointerCancel p) = fst (endDrag True p)"
      using act by (simp_all add: windowEvent_def)
    then have up: "fst (windowEvent PointerUp (unregisterItem ident p)) = fst (endDrag False p)"
      and ca: "fst (windowEvent PointerCancel (unregisterItem ident p)) = fst (endDrag True p)"
      by (simp_all only: w)
    have "dragEnds (fst (windowEvent PointerUp (unregisterItem ident p))) =
               [DragEnd (draggedId (state p)) ?f
                  (case overIndex (state p) of Some i \<Rightarrow> i | None \<Rightarrow> ?f) False]"
      unfolding up using endDrag_dragEnds[OF act, of False] by simp
    moreover have "dragEnds (fst (windowEvent PointerCancel (unregisterItem ident p))) =
               [DragEnd (draggedId (state p)) ?f ?f True]"
      unfolding ca using endDrag_dragEnds[OF act, of True] by simp
    ultimately show ?thesis
      by blast
  qed
  from st ref e[of c] w c fin show ?thesis
    by simp
qed

theorem unregistration_leaves_session_unchanged_witness:
  "isDragging (state (draggingOverC None))
   \<and> dragEnds (fst (windowEvent PointerUp (unregisterItem ''a'' (draggingOverC None))))
       = [DragEnd (Some ''a'') 0 2 False]
   \<and> dragEnds (fst (windowEvent PointerUp (draggingOverC None)))
       = [DragEnd (Some ''a'') 0 2 False]"
proof -
  have "dragEnds (fst (windowEvent PointerUp (draggingOverC None))) = [DragEnd (Some ''a'') 0 2 False]"
    using endDrag_dragEnds[of "draggingOverC None" False]
    by (simp add: windowEvent_def draggingOverC_fields draggingOverC_over)
  then show ?thesis
    using unregistration_leaves_session_unchanged[of "''a''" "draggingOverC None" False PointerUp]
    by (simp add: draggingOverC_fields dragEnds_def)
qed

lemma displacementEffect_registered:
  assumes "isDragging (state p)" "draggedId (state p) = Some d" "d \<noteq> itemId s"
    and "draggedIndex (state p) = Some origin" "elementRef s = Some el"
    and "getItemElement p d = Some de"
  shows "localTransform (displacementEffect p s) =
           map_option (\<lambda>dy. \<lparr>pos_x = 0, pos_y = dy\<rparr>)
             (specDisplacement origin
                (case overIndex (state p) of Some i \<Rightarrow> i | None \<Rightarrow> origin)
                (itemIndex s) (real (offsetHeight de) + 16))"
  using assms
  by (simp add: displacementEffect_def isAnotherDragging_def toNumber_def specDisplacement_def
      Let_def)

lemma displacementEffect_unregistered:
  assumes "isDragging (state p)" "draggedId (state p) = Some d" "d \<noteq> itemId s"
    and "draggedIndex (state p) = Some origin" "elementRef s = Some el"
    and "getItemElement p d = None"
  shows "localTransform (displacementEffect p s) =
           (if specDisplacement origin
                 (case overIndex (state p) of Some i \<Rightarrow> i | None \<Rightarrow> origin)
                 (itemIndex s) 1 = None
            then None else localTransform s)"
  using assms
  by (simp add: displacementEffect_def isAnotherDragging_def toNumber_def specDisplacement_def
      Let_def)

lemma fiveItems_simps:
  "config fiveItems = DEFAULT_CONFIG"
  "state fiveItems = idleState"
  "itemsRef fiveItems = [(''i0'', 0, boxElement 0 0 100 50 50),
      (''i1'', 1, boxElement 0 66 100 116 50), (''i2'', 2, boxElement 0 132 100 182 50),
      (''i3'', 3, boxElement 0 198 100 248 50), (''i4'', 4, boxElement 0 264 100 314 50)]"
  by (simp_all add: fiveItems_def initialProvider_def registerItem_def)

lemma dragOneToThree_fields:
  "isDragging (state dragOneToThree)"
  "draggedId (state dragOneToThree) = Some ''i1''"
  "draggedIndex (state dragOneToThree) = Some 1"
  "overIndex (state dragOneToThree) = Some 3"
  "getItemElement dragOneToThree ''i1'' = Some (boxElement 0 66 100 116 50)"
  by (simp_all add: dragOneToThree_def fiveItems_simps startDrag_def startDragBegin_def
      startDragResume_def updateDrag_def applyAxisLock_def findItemAtPosition_def
      getItemElement_def boxElement_def Let_def DEFAULT_CONFIG_def)

lemma dragThreeToOne_fields:
  "isDragging (state dragThreeToOne)"
  "draggedId (state dragThreeToOne) = Some ''i3''"
  "draggedIndex (state dragThreeToOne) = Some 3"
  "overIndex (state dragThreeToOne) = Some 1"
  "getItemElement dragThreeToOne ''i3'' = Some (boxElement 0 198 100 248 50)"
  by (simp_all add: dragThreeToOne_def fiveItems_simps startDrag_def startDragBegin_def
      startDragResume_def updateDrag_def applyAxisLock_def findItemAtPosition_def
      getItemElement_def boxElement_def Let_def DEFAULT_CONFIG_def)

lemma unregistered_dragOneToThree:
  "state (unregisterItem ''i1'' dragOneToThree) = state dragOneToThree"
  "getItemElement (unregisterItem ''i1'' dragOneToThree) ''i1'' = None"
  by (simp_all add: unregisterItem_def getItemElement_def dragOneToThree_def fiveItems_simps
      startDrag_def startDragBegin_def startDragResume_def updateDrag_def Let_def)

lemma dragOverNearNeighbour_fields:
  "isDragging (state dragOverNearNeighbour)"
  "draggedId (state dragOverNearNeighbour) = Some ''a''"
  "draggedIndex (state dragOverNearNeighbour) = Some 0"
  "overIndex (state dragOverNearNeighbour) = Some 1"
  "getItemElement dragOverNearNeighbour ''a'' = Some (boxElement 0 0 100 50 50)"
  by (simp_all add: dragOverNearNeighbour_def initialProvider_def registerItem_def
      startDrag_def startDragBegin_def startDragResume_def updateDrag_def applyAxisLock_def
      findItemAtPosition_def getItemElement_def boxElement_def Let_def DEFAULT_CONFIG_def
      idleState_def)

text \<open>
  Claim C2 as stated fails in two ways. With item \<open>i1\<close> dragged from index 1 over index 3
  and its record removed from the registry, item \<open>i2\<close>, inside the range, is not
  displaced when it had no transform and keeps a previous transform when it had one:
  the result is not a function of the indices and the extent. And the shift is the
  dragged element's \<open>offsetHeight\<close> plus the constant 16, not plus the gap of the layout:
  with items 50 high and 10 apart, the neighbour is shifted by 66.
\<close>

theorem displacement_stale_and_fixed_gap_counterexample:
  "isDragging (state (unregisterItem ''i1'' dragOneToThree))
   \<and> draggedId (state (unregisterItem ''i1'' dragOneToThree)) = Some ''i1''
   \<and> draggedIndex (state (unregisterItem ''i1'' dragOneToThree)) = Some 1
   \<and> overIndex (state (unregisterItem ''i1'' dragOneToThree)) = Some 3
   \<and> localTransform (displacementEffect (unregisterItem ''i1'' dragOneToThree)
        (mountedItem ''i2'' 2 (boxElement 0 132 100 182 50))) = None
   \<and> localTransform (displacementEffect (unregisterItem ''i1'' dragOneToThree)
        ((mountedItem ''i2'' 2 (boxElement 0 132 100 182 50))
           \<lparr>localTransform := Some \<lparr>pos_x = 0, pos_y = 5\<rparr>\<rparr>)) = Some \<lparr>pos_x = 0, pos_y = 5\<rparr>
   \<and> offsetHeight (boxElement 0 0 100 50 50) = 50
   \<and> rect_top (boundingClientRect (boxElement 0 60 100 110 50))
       - rect_bottom (boundingClientRect (boxElement 0 0 100 50 50)) = 10
   \<and> draggedIndex (state dragOverNearNeighbour) = Some 0
   \<and> overIndex (state dragOverNearNeighbour) = Some 1
   \<and> localTransform (displacementEffect dragOverNearNeighbour
        (mountedItem ''b'' 1 (boxElement 0 60 100 110 50))) = Some \<lparr>pos_x = 0, pos_y = - 66\<rparr>"
proof -
  have stale: "localTransform (displacementEffect (unregisterItem ''i1'' dragOneToThree)
                  ((mountedItem ''i2'' 2 el)\<lparr>localTransform := prev\<rparr>)) = prev" for el prev
    using displacementEffect_unregistered
            [of "unregisterItem ''i1'' dragOneToThree" "''i1''"
                "(mountedItem ''i2'' 2 el)\<lparr>localTransform := prev\<rparr>" 1 el]
    by (simp add: unregistered_dragOneToThree dragOneToThree_fields mountedItem_def
        specDisplacement_def)
  have mounted: "mountedItem ''i2'' 2 el = (mountedItem ''i2'' 2 el)\<lparr>localTransform := None\<rparr>" for el
    by (simp add: mountedItem_def)
  have s1: "localTransform (displacementEffect (unregisterItem ''i1'' dragOneToThree)
              (mountedItem ''i2'' 2 (boxElement 0 132 100 182 50))) = None"
    using stale[where el = "boxElement 0 132 100 182 50" and prev = None] mounted[of "boxElement 0 132 100 182 50"]
    by simp
  have gap: "localTransform (displacementEffect dragOverNearNeighbour
        (mountedItem ''b'' 1 (boxElement 0 60 100 110 50))) = Some \<lparr>pos_x = 0, pos_y = - 66\<rparr>"
    using displacementEffect_registered
            [of dragOverNearNeighbour "''a''" "mountedItem ''b'' 1 (boxElement 0 60 100 110 50)" 0
                "boxElement 0 60 100 110 50" "boxElement 0 0 100 50 50"]
    by (simp add: dragOverNearNeighbour_fields mountedItem_def specDisplacement_def boxElement_def)
  show ?thesis
    using s1 stale[where el = "boxElement 0 132 100 182 50" and prev = "Some \<lparr>pos_x = 0, pos_y = 5\<rparr>"] gap
    by (simp add: unregistered_dragOneToThree dragOneToThree_fields dragOverNearNeighbour_fields
        boxElement_def)
qed

text \<open>
  Claim C2, as amended. For a mounted item that is not the dragged one, while the
  dragged element is registered, the displacement effect sets \<open>localTransform\<close> to a
  shift along y, x being 0, by the dragged element's \<open>offsetHeight\<close> plus the constant
  16: backward exactly when \<open>originIndex < overIndex\<close> and \<open>originIndex < index \<le> overIndex\<close>,
  forward exactly when \<open>originIndex > overIndex\<close> and \<open>overIndex \<le> index < originIndex\<close>, and
  to none exactly otherwise. There the result is a function of the origin index, the
  over index, the item's index and that extent only: the previous \<open>localTransform\<close> does
  not enter. Dragging index 1 to over index 3 shifts exactly the indices 2 and 3
  backward; dragging 3 to 1 shifts exactly 1 and 2 forward. While the dragged element
  is not registered, an item outside both ranges has no transform and an item inside
  one keeps the transform it had.
\<close>

theorem displacement_while_dragged_registered:
  assumes "isDragging (state p)" "draggedId (state p) = Some d" "d \<noteq> itemId s"
    and "draggedIndex (state p) = Some originIndex" "elementRef s = Some el"
    and "overIdx = (case overIndex (state p) of Some i \<Rightarrow> i | None \<Rightarrow> originIndex)"
  shows "(getItemElement p d = Some draggedElement \<longrightarrow>
          localTransform (displacementEffect p s) =
            map_option (\<lambda>dy. \<lparr>pos_x = 0, pos_y = dy\<rparr>)
              (specDisplacement originIndex overIdx (itemIndex s)
                 (real (offsetHeight draggedElement) + 16))
          \<and> (localTransform (displacementEffect p s)
                = Some \<lparr>pos_x = 0, pos_y = - (real (offsetHeight draggedElement) + 16)\<rparr>
              \<longleftrightarrow> originIndex < overIdx \<and> originIndex < itemIndex s \<and> itemIndex s \<le> overIdx)
          \<and> (localTransform (displacementEffect p s)
                = Some \<lparr>pos_x = 0, pos_y = real (offsetHeight draggedElement) + 16\<rparr>
              \<longleftrightarrow> originIndex > overIdx \<and> overIdx \<le> itemIndex s \<and> itemIndex s < originIndex)
          \<and> (localTransform (displacementEffect p s) = None
              \<longleftrightarrow> \<not> (originIndex < overIdx \<and> originIndex < itemIndex s \<and> itemIndex s \<le> overIdx)
                  \<and> \<not> (originIndex > overIdx \<and> overIdx \<le> itemIndex s \<and> itemIndex s < originIndex))
          \<and> localTransform (displacementEffect p (s\<lparr>localTransform := previous\<rparr>))
              = localTransform (displacementEffect p s)
          \<and> (originIndex = 1 \<and> overIdx = 3 \<longrightarrow>
               (localTransform (displacementEffect p s)
                  = Some \<lparr>pos_x = 0, pos_y = - (real (offsetHeight draggedElement) + 16)\<rparr>
                \<longleftrightarrow> itemIndex s = 2 \<or> itemIndex s = 3)
               \<and> (localTransform (displacementEffect p s) = None
                \<longleftrightarrow> itemIndex s \<noteq> 2 \<and> itemIndex s \<noteq> 3))
          \<and> (originIndex = 3 \<and> overIdx = 1 \<longrightarrow>
               (localTransform (displacementEffect p s)
                  = Some \<lparr>pos_x = 0, pos_y = real (offsetHeight draggedElement) + 16\<rparr>
                \<longleftrightarrow> itemIndex s = 1 \<or> itemIndex s = 2)
               \<and> (localTransform (displacementEffect p s) = None
                \<longleftrightarrow> itemIndex s \<noteq> 1 \<and> itemIndex s \<noteq> 2)))
     \<and> (getItemElement p d = None \<longrightarrow>
          localTransform (displacementEffect p s) =
            (if (originIndex < overIdx \<and> originIndex < itemIndex s \<and> itemIndex s \<le> overIdx)
                \<or> (originIndex > overIdx \<and> overIdx \<le> itemIndex s \<and> itemIndex s < originIndex)
             then localTransform s else None))"
proof (intro conjI impI)
  assume nreg: "getItemElement p d = None"
  show "localTransform (displacementEffect p s) =
            (if (originIndex < overIdx \<and> originIndex < itemIndex s \<and> itemIndex s \<le> overIdx)
                \<or> (originIndex > overIdx \<and> overIdx \<le> itemIndex s \<and> itemIndex s < originIndex)
             then localTransform s else None)"
    unfolding assms(6) displacementEffect_unregistered[OF assms(1-5) nreg]
    by (auto simp: specDisplacement_def)
next
  assume reg: "getItemElement p d = Some draggedElement"
  define ext where "ext = real (offsetHeight draggedElement) + 16"
  have pos: "ext > 0"
    by (simp add: ext_def)
  have eq: "localTransform (displacementEffect p s) =
           map_option (\<lambda>dy. \<lparr>pos_x = 0, pos_y = dy\<rparr>)
             (specDisplacement originIndex overIdx (itemIndex s) ext)"
    unfolding assms(6) ext_def by (rule displacementEffect_registered[OF assms(1-5) reg])
  have prev: "localTransform (displacementEffect p (s\<lparr>localTransform := previous\<rparr>))
          = localTransform (displacementEffect p s)"
    using displacementEffect_registered[of p d "s\<lparr>localTransform := previous\<rparr>" originIndex el draggedElement]
      displacementEffect_registered[OF assms(1-5) reg] assms(1-5) reg
    by simp
  have bwd: "localTransform (displacementEffect p s) = Some \<lparr>pos_x = 0, pos_y = - ext\<rparr>
          \<longleftrightarrow> originIndex < overIdx \<and> originIndex < itemIndex s \<and> itemIndex s \<le> overIdx"
    unfolding eq using pos by (auto simp: specDisplacement_def)
  have fwd: "localTransform (displacementEffect p s) = Some \<lparr>pos_x = 0, pos_y = ext\<rparr>
          \<longleftrightarrow> originIndex > overIdx \<and> overIdx \<le> itemIndex s \<and> itemIndex s < originIndex"
    unfolding eq using pos by (auto simp: specDisplacement_def)
  have none: "localTransform (displacementEffect p s) = None
          \<longleftrightarrow> \<not> (originIndex < overIdx \<and> originIndex < itemIndex s \<and> itemIndex s \<le> overIdx)
              \<and> \<not> (originIndex > overIdx \<and> overIdx \<le> itemIndex s \<and> itemIndex s < originIndex)"
    unfolding eq by (auto simp: specDisplacement_def)
  show "localTransform (displacementEffect p s) =
            map_option (\<lambda>dy. \<lparr>pos_x = 0, pos_y = dy\<rparr>)
              (specDisplacement originIndex overIdx (itemIndex s)
                 (real (offsetHeight draggedElement) + 16))"
    using eq unfolding ext_def .
  show "localTransform (displacementEffect p s)
                = Some \<lparr>pos_x = 0, pos_y = - (real (offsetHeight draggedElement) + 16)\<rparr>
              \<longleftrightarrow> originIndex < overIdx \<and> originIndex < itemIndex s \<and> itemIndex s \<le> overIdx"
    using bwd unfolding ext_def .
  show "localTransform (displacementEffect p s)
                = Some \<lparr>pos_x = 0, pos_y = real (offsetHeight draggedElement) + 16\<rparr>
              \<longleftrightarrow> originIndex > overIdx \<and> overIdx \<le> itemIndex s \<and> itemIndex s < originIndex"
    using fwd unfolding ext_def .
  show "localTransform (displacementEffect p s) = None
              \<longleftrightarrow> \<not> (originIndex < overIdx \<and> originIndex < itemIndex s \<and> itemIndex s \<le> overIdx)
                  \<and> \<not> (originIndex > overIdx \<and> overIdx \<le> itemIndex s \<and> itemIndex s < originIndex)"
    by (rule none)
  show "localTransform (displacementEffect p (s\<lparr>localTransform := previous\<rparr>))
              = localTransform (displacementEffect p s)"
    by (rule prev)
  show "(localTransform (displacementEffect p s)
                  = Some \<lparr>pos_x = 0, pos_y = - (real (offsetHeight draggedElement) + 16)\<rparr>
                \<longleftrightarrow> itemIndex s = 2 \<or> itemIndex s = 3)"
    if "originIndex = 1 \<and> overIdx = 3"
    using bwd that unfolding ext_def by auto
  show "(localTransform (displacementEffect p s) = None
                \<longleftrightarrow> itemIndex s \<noteq> 2 \<and> itemIndex s \<noteq> 3)"
    if "originIndex = 1 \<and> overIdx = 3"
    using none that by auto
  show "(localTransform (displacementEffect p s)
                  = Some \<lparr>pos_x = 0, pos_y = real (offsetHeight draggedElement) + 16\<rparr>
                \<longleftrightarrow> itemIndex s = 1 \<or> itemIndex s = 2)"
    if "originIndex = 3 \<and> overIdx = 1"
    using fwd that unfolding ext_def by auto
  show "(localTransform (displacementEffect p s) = None
                \<longleftrightarrow> itemIndex s \<noteq> 1 \<and> itemIndex s \<noteq> 2)"
    if "originIndex = 3 \<and> overIdx = 1"
    using none that by auto
qed

theorem displacement_while_dragged_registered_witness:
  "isDragging (state dragOneToThree) \<and> draggedIndex (state dragOneToThree) = Some 1
   \<and> overIndex (state dragOneToThree) = Some 3
   \<and> getItemElement dragOneToThree ''i1'' = Some (boxElement 0 66 100 116 50)
   \<and> localTransform (displacementEffect dragOneToThree
        (mountedItem ''i2'' 2 (boxElement 0 132 100 182 50))) = Some \<lparr>pos_x = 0, pos_y = - 66\<rparr>
   \<and> localTransform (displacementEffect dragOneToThree
        (mountedItem ''i3'' 3 (boxElement 0 198 100 248 50))) = Some \<lparr>pos_x = 0, pos_y = - 66\<rparr>
   \<and> localTransform (displacementEffect dragOneToThree
        (mountedItem ''i0'' 0 (boxElement 0 0 100 50 50))) = None
   \<and> localTransform (displacementEffect dragOneToThree
        (mountedItem ''i4'' 4 (boxElement 0 264 100 314 50))) = None
   \<and> localTransform (displacementEffect dragThreeToOne
        (mountedItem ''i1'' 1 (boxElement 0 66 100 116 50))) = Some \<lparr>pos_x = 0, pos_y = 66\<rparr>
   \<and> localTransform (displacementEffect dragThreeToOne
        (mountedItem ''i2'' 2 (boxElement 0 132 100 182 50))) = Some \<lparr>pos_x = 0, pos_y = 66\<rparr>
   \<and> getItemElement (unregisterItem ''i1'' dragOneToThree) ''i1'' = None
   \<and> localTransform (displacementEffect (unregisterItem ''i1'' dragOneToThree)
        ((mountedItem ''i4'' 4 (boxElement 0 264 100 314 50))
           \<lparr>localTransform := Some \<lparr>pos_x = 0, pos_y = 5\<rparr>\<rparr>)) = None"
proof -
  have ext: "real (offsetHeight (boxElement l t r b 50)) + 16 = 66" for l t r b
    by (simp add: boxElement_def)
  have up: "localTransform (displacementEffect dragOneToThree (mountedItem ident k el)) =
              map_option (\<lambda>dy. \<lparr>pos_x = 0, pos_y = dy\<rparr>) (specDisplacement 1 3 k 66)"
    if "ident \<noteq> ''i1''" for ident k el
    using displacement_while_dragged_registered
            [of dragOneToThree "''i1''" "mountedItem ident k el" 1 el 3
                "boxElement 0 66 100 116 50"] that
    by (simp add: dragOneToThree_fields mountedItem_def ext)
  have down: "localTransform (displacementEffect dragThreeToOne (mountedItem ident k el)) =
              map_option (\<lambda>dy. \<lparr>pos_x = 0, pos_y = dy\<rparr>) (specDisplacement 3 1 k 66)"
    if "ident \<noteq> ''i3''" for ident k el
    using displacement_while_dragged_registered
            [of dragThreeToOne "''i3''" "mountedItem ident k el" 3 el 1
                "boxElement 0 198 100 248 50"] that
    by (simp add: dragThreeToOne_fields mountedItem_def ext)
  have gone: "localTransform (displacementEffect (unregisterItem ''i1'' dragOneToThree)
        ((mountedItem ''i4'' 4 (boxElement 0 264 100 314 50))
           \<lparr>localTransform := Some \<lparr>pos_x = 0, pos_y = 5\<rparr>\<rparr>)) = None"
    using displacement_while_dragged_registered
            [of "unregisterItem ''i1'' dragOneToThree" "''i1''"
                "(mountedItem ''i4'' 4 (boxElement 0 264 100 314 50))
                   \<lparr>localTransform := Some \<lparr>pos_x = 0, pos_y = 5\<rparr>\<rparr>" 1
                "boxElement 0 264 100 314 50" 3]
    by (simp add: unregistered_dragOneToThree dragOneToThree_fields mountedItem_def)
  show ?thesis
    by (simp add: up down gone dragOneToThree_fields unregistered_dragOneToThree
        specDisplacement_def)
qed

lemma handlePointerDown_arms:
  assumes "\<not> disabled s" "\<not> (pointerType e = ''mouse'' \<and> button e \<noteq> 0)"
  shows "handlePointerDown e s =
           s\<lparr>startPositionRef := Some \<lparr>pos_x = clientX e, pos_y = clientY e\<rparr>,
             isActivatedRef := False, activationTimeoutRef := Some (nextTimer s),
             timers := timers s @ [nextTimer s], nextTimer := Suc (nextTimer s)\<rparr>"
  using assms by (auto simp: handlePointerDown_def setActivationTimeout_def)

text \<open>
  Claim C8 as stated fails: while item \<open>a\<close> is being dragged, a pointer-down on item \<open>b\<close>
  sets \<open>b\<close>'s activation timer, and when it fires the session's \<open>draggedId\<close> is \<open>b\<close>; no
  drag-end has been emitted for \<open>a\<close>.
\<close>

theorem pointer_down_while_active_counterexample:
  "isDragging (state (draggingOverC None))
   \<and> draggedId (state (draggingOverC None)) = Some ''a''
   \<and> timers (handlePointerDown \<lparr>pointerType = ''touch'', button = 0, clientX = 20, clientY = 70\<rparr>
               (mountedItem ''b'' 1 (boxElement 0 66 100 116 50))) = [1]
   \<and> draggedId (state (snd (snd (activationTimeout 1
        (handlePointerDown \<lparr>pointerType = ''touch'', button = 0, clientX = 20, clientY = 70\<rparr>
           (mountedItem ''b'' 1 (boxElement 0 66 100 116 50)))
        (draggingOverC None))))) = Some ''b''
   \<and> dragEnds (fst (snd (activationTimeout 1
        (handlePointerDown \<lparr>pointerType = ''touch'', button = 0, clientX = 20, clientY = 70\<rparr>
           (mountedItem ''b'' 1 (boxElement 0 66 100 116 50)))
        (draggingOverC None)))) = []"
  by (simp add: draggingOverC_fields handlePointerDown_def setActivationTimeout_def
      mountedItem_def activationTimeout_def startDrag_def startDragBegin_def
      startDragResume_def dragEnds_def Let_def)

text \<open>
  Claim C8, as amended. A pointer-down on an enabled item (primary button, or a pointer
  that is not a mouse) is handled in the same way whatever the drag state is: it sets
  that item's activation timer, and when the timer fires \<open>startDrag\<close> writes the session
  state for this item (\<open>draggedId\<close>, \<open>draggedIndex\<close>, \<open>overIndex\<close>, \<open>initialPosition\<close>, the index
  ref) and emits a drag-start and no drag-end, also when another item's drag was in
  progress. The state has one \<open>draggedId\<close>, so one item at most is recorded as dragged.
\<close>

theorem pointer_down_while_active_starts_new_drag:
  assumes "\<not> disabled s" "\<not> (pointerType e = ''mouse'' \<and> button e \<noteq> 0)"
    and "elementRef s = Some element"
  shows "activationTimeoutRef (handlePointerDown e s) = Some (nextTimer s)
     \<and> nextTimer s \<in> set (timers (handlePointerDown e s))
     \<and> (let (s2, out, p2) = activationTimeout (nextTimer s) (handlePointerDown e s) p
        in isActivatedRef s2
           \<and> isDragging (state p2)
           \<and> draggedId (state p2) = Some (itemId s)
           \<and> draggedIndex (state p2) = Some (itemIndex s)
           \<and> overIndex (state p2) = Some (itemIndex s)
           \<and> initialPosition (state p2) = Some \<lparr>pos_x = clientX e, pos_y = clientY e\<rparr>
           \<and> initialIndexRef p2 = Some (itemIndex s)
           \<and> dragEnds out = []
           \<and> DragStart (itemId s) (itemIndex s) \<in> set out)"
proof -
  note arm = handlePointerDown_arms[OF assms(1,2)]
  have t: "activationTimeoutRef (handlePointerDown e s) = Some (nextTimer s)"
    "nextTimer s \<in> set (timers (handlePointerDown e s))"
    by (simp_all add: arm)
  have run: "activationTimeout (nextTimer s) (handlePointerDown e s) p =
          ((handlePointerDown e s)\<lparr>timers := removeAll (nextTimer s) (timers s @ [nextTimer s]),
             isActivatedRef := True\<rparr>,
           startDrag (itemId s) (itemIndex s) \<lparr>pos_x = clientX e, pos_y = clientY e\<rparr> element p)"
    using assms(3) by (simp add: activationTimeout_def arm Let_def)
  have out: "dragEnds (fst (startDrag ident index position el p)) = []"
    "DragStart ident index \<in> set (fst (startDrag ident index position el p))"
    for ident index position el
    by (simp_all add: startDrag_def startDragResume_def dragEnds_def Let_def)
  show ?thesis
    using t by (simp add: run case_prod_unfold startDrag_fields out)
qed

theorem pointer_down_while_active_starts_new_drag_witness:
  "isDragging (state (draggingOverC None))
   \<and> draggedId (state (draggingOverC None)) = Some ''a''
   \<and> \<not> disabled (mountedItem ''b'' 1 (boxElement 0 66 100 116 50))
   \<and> nextTimer (mountedItem ''b'' 1 (boxElement 0 66 100 116 50)) = 1
   \<and> draggedId (state (snd (snd (activationTimeout 1
        (handlePointerDown \<lparr>pointerType = ''mouse'', button = 0, clientX = 20, clientY = 70\<rparr>
           (mountedItem ''b'' 1 (boxElement 0 66 100 116 50)))
        (draggingOverC None))))) = Some ''b''"
proof -
  let ?s = "mountedItem ''b'' 1 (boxElement 0 66 100 116 50)"
  let ?e = "\<lparr>pointerType = ''mouse'', button = 0, clientX = 20, clientY = 70\<rparr>"
  have h: "\<not> disabled ?s" "\<not> (pointerType ?e = ''mouse'' \<and> button ?e \<noteq> 0)"
    "elementRef ?s = Some (boxElement 0 66 100 116 50)"
    and n: "nextTimer ?s = 1" "itemId ?s = ''b''"
    by (simp_all add: mountedItem_def)
  from pointer_down_while_active_starts_new_drag[OF h, of "draggingOverC None"]
  show ?thesis
    using h(1) by (simp add: n case_prod_unfold draggingOverC_fields Let_def)
qed

lemma calculateScrollSpeed_y:
  assumes "enabled cfg"
  shows "pos_y (calculateScrollSpeed cfg window (Some el) position) =
     (if edgeTriggers cfg BottomEdge window el position
      then edgeMagnitude cfg (distanceFromEdge BottomEdge window el position)
      else if edgeTriggers cfg TopEdge window el position
      then - edgeMagnitude cfg (distanceFromEdge TopEdge window el position)
      else 0)"
  using assms
  by (simp add: calculateScrollSpeed_def edgeTriggers_def edgeMagnitude_def containerRect_def
      Let_def)

lemma calculateScrollSpeed_x:
  assumes "enabled cfg"
  shows "pos_x (calculateScrollSpeed cfg window (Some el) position) =
     (if edgeTriggers cfg RightEdge window el position
      then edgeMagnitude cfg (distanceFromEdge RightEdge window el position)
      else if edgeTriggers cfg LeftEdge window el position
      then - edgeMagnitude cfg (distanceFromEdge LeftEdge window el position)
      else 0)"
  using assms
  by (simp add: calculateScrollSpeed_def edgeTriggers_def edgeMagnitude_def containerRect_def
      Let_def)


lemma edgeMagnitude_nonneg:
  "0 \<le> edgeMagnitude DEFAULT_AUTOSCROLL distance"
  by (simp add: edgeMagnitude_def DEFAULT_AUTOSCROLL_def min_def max_def)

lemma edgeMagnitude_claimed:
  "distance < 80 \<Longrightarrow> edgeMagnitude DEFAULT_AUTOSCROLL distance = claimedSpeed 80 15 (3 / 2) distance"
  by (simp add: edgeMagnitude_def claimedSpeed_def DEFAULT_AUTOSCROLL_def)

lemma claimedSpeed_antimono:
  assumes "d \<le> d'"
  shows "claimedSpeed 80 15 (3 / 2) d' \<le> claimedSpeed 80 15 (3 / 2) d"
proof -
  let ?i = "\<lambda>x::real. max (1 / 10) (if x \<le> 0 then 1 else 1 - x / 80)"
  have i: "?i d' \<le> ?i d"
    using assms by (auto simp: max_def field_simps)
  have i0: "0 \<le> ?i d"
    by (simp add: max_def)
  show ?thesis
  proof (cases "d' \<ge> 80")
    case True
    then have "claimedSpeed 80 15 (3 / 2) d' = 0"
      by (simp add: claimedSpeed_def)
    moreover have "0 \<le> claimedSpeed 80 15 (3 / 2) d"
      using i0 by (simp add: claimedSpeed_def min_def)
    ultimately show ?thesis by simp
  next
    case False
    with assms have "\<not> d \<ge> 80" by simp
    have "?i d' * 15 * (3 / 2) \<le> ?i d * 15 * (3 / 2)"
      using i by simp
    then have "min 15 (?i d' * 15 * (3 / 2)) \<le> min 15 (?i d * 15 * (3 / 2))"
      by (rule min.mono[OF order_refl])
    then show ?thesis
      using False \<open>\<not> d \<ge> 80\<close> by (simp add: claimedSpeed_def)
  qed
qed

text \<open>
  Claim C3, as amended. With threshold 80, maximum speed 15 and acceleration 1.5, for an
  edge toward which the container can still scroll, and a pointer for which the
  opposite edge of the same axis does not trigger (the pointer is at least the
  threshold away from it, or the container cannot scroll toward it), the magnitude of
  the computed speed on that axis is the specification's function of the distance from
  the edge. That function is non-increasing in the distance and is 0 from 80 on; so is
  the computed speed.
\<close>

theorem scroll_speed_isolated_edge:
  assumes "canScrollToward edge el"
    and "\<not> edgeTriggers DEFAULT_AUTOSCROLL (oppositeEdge edge) window el position"
  shows "\<bar>axisSpeed edge (calculateScrollSpeed DEFAULT_AUTOSCROLL window (Some el) position)\<bar>
           = claimedSpeed 80 15 (3 / 2) (distanceFromEdge edge window el position)
     \<and> (d \<le> d' \<longrightarrow> claimedSpeed 80 15 (3 / 2) d' \<le> claimedSpeed 80 15 (3 / 2) d)
     \<and> (80 \<le> d \<longrightarrow> claimedSpeed 80 15 (3 / 2) d = 0)
     \<and> (80 \<le> distanceFromEdge edge window el position \<longrightarrow>
          axisSpeed edge (calculateScrollSpeed DEFAULT_AUTOSCROLL window (Some el) position) = 0)"
proof -
  have en: "enabled DEFAULT_AUTOSCROLL" and th: "threshold DEFAULT_AUTOSCROLL = 80"
    by (simp_all add: DEFAULT_AUTOSCROLL_def)
  let ?d = "distanceFromEdge edge window el position"
  let ?v = "axisSpeed edge (calculateScrollSpeed DEFAULT_AUTOSCROLL window (Some el) position)"
  have trig: "edgeTriggers DEFAULT_AUTOSCROLL edge window el position \<longleftrightarrow> ?d < 80"
    using assms(1) by (simp add: edgeTriggers_def th)
  have v: "\<bar>?v\<bar> = (if ?d < 80 then edgeMagnitude DEFAULT_AUTOSCROLL ?d else 0)"
    using assms(2) trig edgeMagnitude_nonneg[of ?d]
    by (cases edge) (simp_all add: calculateScrollSpeed_y[OF en] calculateScrollSpeed_x[OF en])
  have mag: "\<bar>?v\<bar> = claimedSpeed 80 15 (3 / 2) ?d"
  proof (cases "?d < 80")
    case True
    then show ?thesis using v edgeMagnitude_claimed[of ?d] by simp
  next
    case False
    then show ?thesis using v by (simp add: claimedSpeed_def)
  qed
  have zero: "80 \<le> ?d \<longrightarrow> ?v = 0"
    using v by auto
  have z: "80 \<le> d \<longrightarrow> claimedSpeed 80 15 (3 / 2) d = 0"
    by (simp add: claimedSpeed_def)
  from mag claimedSpeed_antimono[of d d'] z zero show ?thesis
    by blast
qed

lemma lowContainer_speed:
  assumes "20 < y"
  shows "pos_y (calculateScrollSpeed DEFAULT_AUTOSCROLL exampleWindow (Some lowContainer)
           \<lparr>pos_x = 150, pos_y = y\<rparr>) = edgeMagnitude DEFAULT_AUTOSCROLL (100 - y)"
proof -
  have en: "enabled DEFAULT_AUTOSCROLL"
    by (simp add: DEFAULT_AUTOSCROLL_def)
  have d: "distanceFromEdge BottomEdge exampleWindow lowContainer \<lparr>pos_x = 150, pos_y = y\<rparr> = 100 - y"
    by (simp add: lowContainer_def exampleWindow_def containerRect_def)
  have t: "edgeTriggers DEFAULT_AUTOSCROLL BottomEdge exampleWindow lowContainer \<lparr>pos_x = 150, pos_y = y\<rparr>"
    unfolding edgeTriggers_def d using assms by (simp add: lowContainer_def DEFAULT_AUTOSCROLL_def)
  show ?thesis
    unfolding calculateScrollSpeed_y[OF en] using t d by simp
qed

text \<open>
  Claim C3 as stated fails when both edges of an axis are within the threshold: the
  bottom block runs after the top block and overwrites its speed. In a container 100
  high that can scroll both ways, at distance 30 from the top the claim gives 225/16
  and the computed magnitude is 45/16 (the bottom edge's, at distance 70); at distance
  90 from the top the claim gives 0 and the computed magnitude is 15.
\<close>

theorem scroll_speed_opposite_edge_counterexample:
  "canScrollToward TopEdge lowContainer
   \<and> distanceFromEdge TopEdge exampleWindow lowContainer \<lparr>pos_x = 150, pos_y = 30\<rparr> = 30
   \<and> claimedSpeed 80 15 (3 / 2) 30 = 225 / 16
   \<and> \<bar>axisSpeed TopEdge (calculateScrollSpeed DEFAULT_AUTOSCROLL exampleWindow (Some lowContainer)
          \<lparr>pos_x = 150, pos_y = 30\<rparr>)\<bar> = 45 / 16
   \<and> \<bar>axisSpeed TopEdge (calculateScrollSpeed DEFAULT_AUTOSCROLL exampleWindow (Some lowContainer)
          \<lparr>pos_x = 150, pos_y = 30\<rparr>)\<bar>
       \<noteq> claimedSpeed 80 15 (3 / 2)
           (distanceFromEdge TopEdge exampleWindow lowContainer \<lparr>pos_x = 150, pos_y = 30\<rparr>)
   \<and> distanceFromEdge TopEdge exampleWindow lowContainer \<lparr>pos_x = 150, pos_y = 90\<rparr> = 90
   \<and> \<bar>axisSpeed TopEdge (calculateScrollSpeed DEFAULT_AUTOSCROLL exampleWindow (Some lowContainer)
          \<lparr>pos_x = 150, pos_y = 90\<rparr>)\<bar> = 15"
proof -
  have c: "claimedSpeed 80 15 (3 / 2) 30 = 225 / 16"
    by (simp add: claimedSpeed_def)
  have m: "edgeMagnitude DEFAULT_AUTOSCROLL 70 = 45 / 16" "edgeMagnitude DEFAULT_AUTOSCROLL 10 = 15"
    by (simp_all add: edgeMagnitude_def DEFAULT_AUTOSCROLL_def)
  have s30: "pos_y (calculateScrollSpeed DEFAULT_AUTOSCROLL exampleWindow (Some lowContainer)
           \<lparr>pos_x = 150, pos_y = 30\<rparr>) = 45 / 16"
    using lowContainer_speed[of 30] m by simp
  have s90: "pos_y (calculateScrollSpeed DEFAULT_AUTOSCROLL exampleWindow (Some lowContainer)
           \<lparr>pos_x = 150, pos_y = 90\<rparr>) = 15"
    using lowContainer_speed[of 90] m by simp
  have top: "canScrollToward TopEdge lowContainer"
    "distanceFromEdge TopEdge exampleWindow lowContainer \<lparr>pos_x = 150, pos_y = 30\<rparr> = 30"
    "distanceFromEdge TopEdge exampleWindow lowContainer \<lparr>pos_x = 150, pos_y = 90\<rparr> = 90"
    by (simp_all add: lowContainer_def exampleWindow_def containerRect_def)
  show ?thesis
    unfolding axisSpeed.simps s30 s90 using top c by simp
qed

theorem scroll_speed_isolated_edge_witness:
  "canScrollToward TopEdge tallContainer
   \<and> \<not> edgeTriggers DEFAULT_AUTOSCROLL BottomEdge exampleWindow tallContainer
         \<lparr>pos_x = 150, pos_y = 30\<rparr>
   \<and> \<bar>axisSpeed TopEdge (calculateScrollSpeed DEFAULT_AUTOSCROLL exampleWindow
         (Some tallContainer) \<lparr>pos_x = 150, pos_y = 30\<rparr>)\<bar> = 225 / 16
   \<and> claimedSpeed 80 15 (3 / 2) 80 \<le> claimedSpeed 80 15 (3 / 2) 30
   \<and> claimedSpeed 80 15 (3 / 2) 80 = 0
   \<and> \<not> edgeTriggers DEFAULT_AUTOSCROLL BottomEdge exampleWindow tallContainer
         \<lparr>pos_x = 150, pos_y = 90\<rparr>
   \<and> distanceFromEdge TopEdge exampleWindow tallContainer \<lparr>pos_x = 150, pos_y = 90\<rparr> = 90
   \<and> axisSpeed TopEdge (calculateScrollSpeed DEFAULT_AUTOSCROLL exampleWindow
         (Some tallContainer) \<lparr>pos_x = 150, pos_y = 90\<rparr>) = 0"
proof -
  let ?pos = "\<lparr>pos_x = 150, pos_y = 30\<rparr>"
  let ?far = "\<lparr>pos_x = 150, pos_y = 90\<rparr>"
  have h1: "canScrollToward TopEdge tallContainer"
    by (simp add: tallContainer_def)
  have h2: "\<not> edgeTriggers DEFAULT_AUTOSCROLL (oppositeEdge TopEdge) exampleWindow tallContainer ?pos"
    and h3: "\<not> edgeTriggers DEFAULT_AUTOSCROLL (oppositeEdge TopEdge) exampleWindow tallContainer ?far"
    by (simp_all add: edgeTriggers_def tallContainer_def exampleWindow_def containerRect_def
        DEFAULT_AUTOSCROLL_def)
  have d: "distanceFromEdge TopEdge exampleWindow tallContainer ?pos = 30"
    and d': "distanceFromEdge TopEdge exampleWindow tallContainer ?far = 90"
    by (simp_all add: tallContainer_def exampleWindow_def containerRect_def)
  have c: "claimedSpeed 80 15 (3 / 2) 30 = 225 / 16"
    by (simp add: claimedSpeed_def)
  from scroll_speed_isolated_edge[OF h1 h2, of 30 80] scroll_speed_isolated_edge[OF h1 h3, of 80 80]
    h1 h2 h3
  show ?thesis
    unfolding d d' c by simp
qed


end
